theory Spec2Isabelle
  imports Complex_Main "HOL-Library.AList" "HOL-Library.Char_ord" "HOL-Library.List_Lexorder"
    "HOL-Library.Log_Nat"
begin

section \<open>The gym scheduling engine of \<^verbatim>\<open>src/gym.py\<close>\<close>

text \<open>
  The embedding follows \<^verbatim>\<open>gym.py\<close> function by function.

  \<^item> A Python \<^verbatim>\<open>dict\<close> is an association list in insertion order: \<open>map_of d k\<close> is
    the lookup \<^verbatim>\<open>d[k]\<close> (\<open>None\<close> is the \<^verbatim>\<open>KeyError\<close>), \<open>AList.update k v d\<close> is the
    assignment \<^verbatim>\<open>d[k] = v\<close> (in place when the key exists, appended otherwise), and
    iteration runs over the list from left to right.
  \<^item> \<^verbatim>\<open>Instructor\<close> has no \<^verbatim>\<open>__eq__\<close>, so Python compares instructors by object
    identity, and \<^verbatim>\<open>add_certificate\<close> mutates an object that the registry and the
    schedule both refer to. Instructor objects therefore live in an explicit store
    \<open>heap\<close>; the registry and the offerings hold references into it.
  \<^item> \<^verbatim>\<open>WorkoutClass\<close> defines \<^verbatim>\<open>__eq__\<close> as equality of name and required certificates,
    which is the equality of the record below.
  \<^item> A \<^verbatim>\<open>datetime\<close> is an hour-aligned instant ("all offerings start on the hour"),
    counted in hours: a natural number.
  \<^item> Python's \<^verbatim>\<open>float\<close> arithmetic is not part of the repository: \<^verbatim>\<open>payroll\<close> takes its
    operations as a parameter, and a model of the binary64 operations instantiates it.
  \<^item> Every exception of the source is a value \<open>Inl e\<close> of the result.
\<close>

subsection \<open>Data model\<close>

datatype py_error = KeyError | ValueError | IndexError | TypeError | AttributeError

type_synonym datetime = nat

type_synonym ref = nat

record Instructor =
  instr_ident :: int
  instr_name :: string
  certificates :: "string list"

type_synonym heap = "ref \<Rightarrow> Instructor"

record WorkoutClass =
  wc_name :: string
  required_certificates :: "string list"

text \<open>The tuple \<^verbatim>\<open>(instructor, workout class, registered clients)\<close> of the schedule.\<close>

type_synonym offering = "ref \<times> WorkoutClass \<times> string list"

record Gym =
  gym_name :: string
  instructors :: "(int \<times> ref) list"
  workouts :: "(string \<times> WorkoutClass) list"
  room_capacities :: "(string \<times> int) list"
  schedule :: "(datetime \<times> (string \<times> offering) list) list"

text \<open>\<^verbatim>\<open>k in d\<close> for a dictionary \<open>d\<close>.\<close>

definition has_key :: "('k \<times> 'v) list \<Rightarrow> 'k \<Rightarrow> bool" where
  "has_key d k = (k \<in> set (map fst d))"

text \<open>
  \<^verbatim>\<open>instructor in tup\<close> and \<^verbatim>\<open>workout in tup\<close> for a schedule tuple. Membership in a
  tuple compares with \<^verbatim>\<open>==\<close>: an instructor is equal only to itself (identity), and
  \<^verbatim>\<open>WorkoutClass.__eq__\<close> answers \<^verbatim>\<open>False\<close> for anything that is not a workout class, so
  only one component of the tuple can match.
\<close>

definition instructor_in :: "ref \<Rightarrow> offering \<Rightarrow> bool" where
  "instructor_in instructor tup = (instructor = fst tup)"

definition workout_in :: "WorkoutClass \<Rightarrow> offering \<Rightarrow> bool" where
  "workout_in workout tup = (fst (snd tup) = workout)"

definition Gym_init :: "string \<Rightarrow> Gym" where
  "Gym_init nm = \<lparr>gym_name = nm, instructors = [], workouts = [], room_capacities = [],
                  schedule = []\<rparr>"

subsection \<open>Registries\<close>

text \<open>\<^verbatim>\<open>Instructor.add_certificate\<close>: the returned flag and the object after the call.\<close>

definition add_certificate :: "Instructor \<Rightarrow> string \<Rightarrow> bool \<times> Instructor" where
  "add_certificate self certificate =
     (if certificate \<in> set (certificates self) then (False, self)
      else (True, self\<lparr>certificates := certificates self @ [certificate]\<rparr>))"

definition add_instructor :: "heap \<Rightarrow> Gym \<Rightarrow> ref \<Rightarrow> bool \<times> Gym" where
  "add_instructor h g instructor =
     (if has_key (instructors g) (instr_ident (h instructor)) then (False, g)
      else (True, g\<lparr>instructors :=
                       AList.update (instr_ident (h instructor)) instructor (instructors g)\<rparr>))"

definition add_workout_class :: "Gym \<Rightarrow> WorkoutClass \<Rightarrow> bool \<times> Gym" where
  "add_workout_class g workout_class =
     (if has_key (workouts g) (wc_name workout_class) then (False, g)
      else (True, g\<lparr>workouts :=
                       AList.update (wc_name workout_class) workout_class (workouts g)\<rparr>))"

definition add_room :: "Gym \<Rightarrow> string \<Rightarrow> int \<Rightarrow> bool \<times> Gym" where
  "add_room g nm capacity =
     (if has_key (room_capacities g) nm then (False, g)
      else (True, g\<lparr>room_capacities := AList.update nm capacity (room_capacities g)\<rparr>))"

subsection \<open>Scheduling an offering\<close>

text \<open>The loop of \<^verbatim>\<open>schedule_workout_class\<close> that looks for the instructor in a slot.\<close>

fun instr_busy_loop :: "ref \<Rightarrow> (string \<times> offering) list \<Rightarrow> bool \<Rightarrow> bool" where
  "instr_busy_loop instructor [] instr_busy = instr_busy"
| "instr_busy_loop instructor ((room, tup) # rest) instr_busy =
     instr_busy_loop instructor rest
       (if instructor_in instructor tup then True else instr_busy)"

definition schedule_workout_class ::
  "heap \<Rightarrow> Gym \<Rightarrow> datetime \<Rightarrow> string \<Rightarrow> string \<Rightarrow> int \<Rightarrow> py_error + (bool \<times> Gym)" where
  "schedule_workout_class h g time_point room_name workout_name instr_id =
     (case map_of (instructors g) instr_id of
        None \<Rightarrow> Inl KeyError
      | Some instructor \<Rightarrow>
     (case map_of (workouts g) workout_name of
        None \<Rightarrow> Inl KeyError
      | Some workout \<Rightarrow>
       (let qualification = certificates (h instructor);
            needed_qualification = required_certificates workout;
            instr_busy = (case map_of (schedule g) time_point of
                            None \<Rightarrow> False
                          | Some slot \<Rightarrow> instr_busy_loop instructor slot False);
            room_available = (case map_of (schedule g) time_point of
                                None \<Rightarrow> True
                              | Some slot \<Rightarrow> \<not> has_key slot room_name);
            instr_qualified = (set needed_qualification \<subseteq> set qualification)
        in if \<not> instr_busy \<and> instr_qualified \<and> room_available then
             (case map_of (schedule g) time_point of
                None \<Rightarrow>
                  (if \<not> has_key ([] :: (string \<times> offering) list) room_name then
                     Inr (True, g\<lparr>schedule := AList.update time_point
                                     (AList.update room_name (instructor, workout, []) [])
                                     (schedule g)\<rparr>)
                   else Inr (False, g\<lparr>schedule := AList.update time_point [] (schedule g)\<rparr>))
              | Some slot \<Rightarrow>
                  (if \<not> has_key slot room_name then
                     Inr (True, g\<lparr>schedule := AList.update time_point
                                     (AList.update room_name (instructor, workout, []) slot)
                                     (schedule g)\<rparr>)
                   else Inr (False, g)))
           else Inr (False, g))))"

subsection \<open>Registering a client\<close>

definition room_space :: "Gym \<Rightarrow> datetime \<Rightarrow> string \<Rightarrow> py_error + int" where
  "room_space g time room_name =
     (case map_of (schedule g) time of
        None \<Rightarrow> Inl KeyError
      | Some slot \<Rightarrow>
     (case map_of slot room_name of
        None \<Rightarrow> Inl KeyError
      | Some tup \<Rightarrow>
     (let num_registered = int (length (snd (snd tup))) in
      case map_of (room_capacities g) room_name of
        None \<Rightarrow> Inl KeyError
      | Some capacity \<Rightarrow> Inr (capacity - num_registered))))"

definition client_free :: "Gym \<Rightarrow> datetime \<Rightarrow> string \<Rightarrow> py_error + bool" where
  "client_free g time client =
     (case map_of (schedule g) time of
        None \<Rightarrow> Inl KeyError
      | Some slot \<Rightarrow>
          (let registered_list = concat (map (\<lambda>(room, tup). snd (snd tup)) slot)
           in if client \<in> set registered_list then Inr False else Inr True))"

text \<open>
  The loop of \<^verbatim>\<open>register\<close> over the rooms of the slot. \<open>Inr None\<close> is the
  \<^verbatim>\<open>return False\<close> of the \<^verbatim>\<open>else\<close> branch; \<open>Inr (Some workout_rooms)\<close> is the
  dictionary from free space to room name when the loop runs to its end.
\<close>

fun register_loop ::
  "Gym \<Rightarrow> datetime \<Rightarrow> WorkoutClass \<Rightarrow> bool \<Rightarrow> (string \<times> offering) list \<Rightarrow>
   (int \<times> string) list \<Rightarrow> py_error + (int \<times> string) list option" where
  "register_loop g time_point workout cfree [] workout_rooms = Inr (Some workout_rooms)"
| "register_loop g time_point workout cfree ((room, tup) # rest) workout_rooms =
     (if workout_in workout tup then
        (case room_space g time_point room of
           Inl e \<Rightarrow> Inl e
         | Inr space \<Rightarrow>
             (if \<not> space \<le> 0 \<and> cfree then
                register_loop g time_point workout cfree rest
                  (AList.update space room workout_rooms)
              else Inr None))
      else Inr None)"

text \<open>\<^verbatim>\<open>max\<close> of the keys of a dictionary; \<^verbatim>\<open>ValueError\<close> when it is empty.\<close>

fun py_max :: "int list \<Rightarrow> py_error + int" where
  "py_max [] = Inl ValueError"
| "py_max (x # xs) = Inr (fold max xs x)"

definition register :: "Gym \<Rightarrow> datetime \<Rightarrow> string \<Rightarrow> string \<Rightarrow> py_error + (bool \<times> Gym)" where
  "register g time_point client workout_name =
     (case map_of (workouts g) workout_name of
        None \<Rightarrow> Inl KeyError
      | Some workout \<Rightarrow>
     (case client_free g time_point client of
        Inl e \<Rightarrow> Inl e
      | Inr cfree \<Rightarrow>
     (case map_of (schedule g) time_point of
        None \<Rightarrow> Inl KeyError
      | Some slot \<Rightarrow>
     (case register_loop g time_point workout cfree slot [] of
        Inl e \<Rightarrow> Inl e
      | Inr None \<Rightarrow> Inr (False, g)
      | Inr (Some workout_rooms) \<Rightarrow>
     (case py_max (map fst workout_rooms) of
        Inl e \<Rightarrow> Inl e
      | Inr best \<Rightarrow>
     (case map_of workout_rooms best of
        None \<Rightarrow> Inl KeyError
      | Some chosen_room \<Rightarrow>
     (case map_of slot chosen_room of
        None \<Rightarrow> Inl KeyError
      | Some (instructor, workout', clients) \<Rightarrow>
          Inr (True, g\<lparr>schedule := AList.update time_point
                          (AList.update chosen_room (instructor, workout', clients @ [client]) slot)
                          (schedule g)\<rparr>))))))))"

subsection \<open>Hours worked and payroll\<close>

text \<open>\<^verbatim>\<open>d[k] += 1\<close>: a \<^verbatim>\<open>KeyError\<close> when the key is missing.\<close>

definition dict_incr :: "'k \<Rightarrow> ('k \<times> int) list \<Rightarrow> py_error + ('k \<times> int) list" where
  "dict_incr k d = (case map_of d k of None \<Rightarrow> Inl KeyError
                    | Some n \<Rightarrow> Inr (AList.update k (n + 1) d))"

fun hours_instr_loop ::
  "heap \<Rightarrow> offering \<Rightarrow> ref list \<Rightarrow> (int \<times> int) list \<Rightarrow> py_error + (int \<times> int) list" where
  "hours_instr_loop h tup [] hour_dict = Inr hour_dict"
| "hours_instr_loop h tup (instr # rest) hour_dict =
     (if instructor_in instr tup then
        (case dict_incr (instr_ident (h instr)) hour_dict of
           Inl e \<Rightarrow> Inl e
         | Inr hour_dict' \<Rightarrow> hours_instr_loop h tup rest hour_dict')
      else hours_instr_loop h tup rest hour_dict)"

fun hours_room_loop ::
  "heap \<Rightarrow> ref list \<Rightarrow> (string \<times> offering) list \<Rightarrow> (int \<times> int) list \<Rightarrow>
   py_error + (int \<times> int) list" where
  "hours_room_loop h instr_list [] hour_dict = Inr hour_dict"
| "hours_room_loop h instr_list ((room, tup) # rest) hour_dict =
     (case hours_instr_loop h tup instr_list hour_dict of
        Inl e \<Rightarrow> Inl e
      | Inr hour_dict' \<Rightarrow> hours_room_loop h instr_list rest hour_dict')"

fun hours_date_loop ::
  "heap \<Rightarrow> ref list \<Rightarrow> datetime \<Rightarrow> datetime \<Rightarrow> (datetime \<times> (string \<times> offering) list) list \<Rightarrow>
   (int \<times> int) list \<Rightarrow> py_error + (int \<times> int) list" where
  "hours_date_loop h instr_list time1 time2 [] hour_dict = Inr hour_dict"
| "hours_date_loop h instr_list time1 time2 ((date, slot) # rest) hour_dict =
     (if time1 \<le> date \<and> date \<le> time2 then
        (case hours_room_loop h instr_list slot hour_dict of
           Inl e \<Rightarrow> Inl e
         | Inr hour_dict' \<Rightarrow> hours_date_loop h instr_list time1 time2 rest hour_dict')
      else hours_date_loop h instr_list time1 time2 rest hour_dict)"

definition instructor_hours ::
  "heap \<Rightarrow> Gym \<Rightarrow> datetime \<Rightarrow> datetime \<Rightarrow> py_error + (int \<times> int) list" where
  "instructor_hours h g time1 time2 =
     (let instr_list = map snd (instructors g);
          hour_dict = fold (\<lambda>(instr_id, instr) d. AList.update instr_id 0 d) (instructors g) []
      in hours_date_loop h instr_list time1 time2 (schedule g) hour_dict)"

text \<open>
  \<^verbatim>\<open>payroll\<close> counts in a dictionary keyed by the instructor objects themselves
  (hashed by identity), so its keys are references.
\<close>

fun pay_instr_loop :: "offering \<Rightarrow> ref list \<Rightarrow> (ref \<times> int) list \<Rightarrow> py_error + (ref \<times> int) list" where
  "pay_instr_loop tup [] instr_dict = Inr instr_dict"
| "pay_instr_loop tup (instr # rest) instr_dict =
     (if instructor_in instr tup then
        (case dict_incr instr instr_dict of
           Inl e \<Rightarrow> Inl e
         | Inr instr_dict' \<Rightarrow> pay_instr_loop tup rest instr_dict')
      else pay_instr_loop tup rest instr_dict)"

fun pay_room_loop ::
  "(string \<times> offering) list \<Rightarrow> (ref \<times> int) list \<Rightarrow> py_error + (ref \<times> int) list" where
  "pay_room_loop [] instr_dict = Inr instr_dict"
| "pay_room_loop ((room, tup) # rest) instr_dict =
     (case pay_instr_loop tup (map fst instr_dict) instr_dict of
        Inl e \<Rightarrow> Inl e
      | Inr instr_dict' \<Rightarrow> pay_room_loop rest instr_dict')"

fun pay_time_loop ::
  "datetime \<Rightarrow> datetime \<Rightarrow> (datetime \<times> (string \<times> offering) list) list \<Rightarrow>
   (ref \<times> int) list \<Rightarrow> py_error + (ref \<times> int) list" where
  "pay_time_loop time1 time2 [] instr_dict = Inr instr_dict"
| "pay_time_loop time1 time2 ((time, slot) # rest) instr_dict =
     (if time1 \<le> time \<and> time \<le> time2 then
        (case pay_room_loop slot instr_dict of
           Inl e \<Rightarrow> Inl e
         | Inr instr_dict' \<Rightarrow> pay_time_loop time1 time2 rest instr_dict')
      else pay_time_loop time1 time2 rest instr_dict)"

text \<open>
  The float operations that \<^verbatim>\<open>payroll\<close> uses: addition and multiplication of two floats,
  the conversion of an \<^verbatim>\<open>int\<close> operand to a float (Python converts the \<^verbatim>\<open>int\<close> before it
  multiplies; the integers here are a count of slots and the length of a list), and the
  float that a decimal literal of the source denotes.
\<close>

record 'f float_ops =
  fl_add :: "'f \<Rightarrow> 'f \<Rightarrow> 'f"
  fl_mul :: "'f \<Rightarrow> 'f \<Rightarrow> 'f"
  fl_of_int :: "int \<Rightarrow> 'f"
  fl_literal :: "rat \<Rightarrow> 'f"

text \<open>\<^verbatim>\<open>BONUS_RATE = 1.50\<close>\<close>

definition BONUS_RATE :: "'f float_ops \<Rightarrow> 'f" where
  "BONUS_RATE fl = fl_literal fl (3 / 2)"

type_synonym 'f pay_row = "int \<times> string \<times> int \<times> 'f"

text \<open>
  The last loop of \<^verbatim>\<open>payroll\<close> overwrites the sorted identifier at position \<open>i\<close> by the
  first tuple of \<open>lst1\<close> that carries it; once overwritten, the entry is a tuple and equals
  no identifier.
\<close>

fun pay_match_loop :: "'f pay_row list \<Rightarrow> int + 'f pay_row \<Rightarrow> int + 'f pay_row" where
  "pay_match_loop [] cur = cur"
| "pay_match_loop (item # rest) cur =
     pay_match_loop rest (if cur = Inl (fst item) then Inr item else cur)"

definition payroll ::
  "'f float_ops \<Rightarrow> heap \<Rightarrow> Gym \<Rightarrow> datetime \<Rightarrow> datetime \<Rightarrow> 'f \<Rightarrow>
   py_error + (int + 'f pay_row) list" where
  "payroll fl h g time1 time2 base_rate =
     (let instr_dict0 = fold (\<lambda>(instr_id, instr) d. AList.update instr 0 d) (instructors g) []
      in case pay_time_loop time1 time2 (schedule g) instr_dict0 of
           Inl e \<Rightarrow> Inl e
         | Inr instr_dict \<Rightarrow>
             (let lst1 = map (\<lambda>(instr, hours).
                            (let counter = length (certificates (h instr));
                                 bonus = fl_mul fl (BONUS_RATE fl) (fl_of_int fl (int counter));
                                 total = fl_mul fl (fl_of_int fl hours) (fl_add fl base_rate bonus)
                             in (instr_ident (h instr), instr_name (h instr), hours, total)))
                          instr_dict;
                  id_list = sort (map fst lst1)
              in Inr (map (\<lambda>i. pay_match_loop lst1 (Inl i)) id_list)))"

subsection \<open>Binary64 arithmetic\<close>

text \<open>
  CPython's \<^verbatim>\<open>float\<close> is the IEEE 754 binary64 format: 53 significant bits, exponents from
  -1022 to 1023, results rounded to the nearest value, ties to the value with an even
  significand. A finite float is the rational number it denotes; the two zeros, which
  Python's \<^verbatim>\<open>==\<close> does not tell apart, are one value. \<open>Infinity True\<close> is \<^verbatim>\<open>inf\<close> and
  \<open>Infinity False\<close> is \<^verbatim>\<open>-inf\<close>.
\<close>

datatype float = Finite rat | Infinity bool | NaN

definition pow2 :: "int \<Rightarrow> rat" where
  "pow2 e = (if 0 \<le> e then 2 ^ nat e else 1 / 2 ^ nat (- e))"

text \<open>For a positive \<open>a\<close>, the exponent \<open>e\<close> with \<open>2 ^ e \<le> a < 2 ^ (e + 1)\<close>.\<close>

definition exponent :: "rat \<Rightarrow> int" where
  "exponent a = (let (p, q) = quotient_of a; e = bitlen p - bitlen q
                 in if pow2 e \<le> a then e else e - 1)"

definition round_half_even :: "rat \<Rightarrow> int" where
  "round_half_even x =
     (let n = \<lfloor>x\<rfloor>; d = x - of_int n
      in if d < 1 / 2 then n else if 1 / 2 < d then n + 1 else if even n then n else n + 1)"

text \<open>
  The float nearest to a rational number: the spacing of the floats around \<open>x\<close> is
  \<open>2 ^ (e - 52)\<close> for the exponent \<open>e\<close> of \<open>x\<close>, and \<open>2 ^ (- 1074)\<close> below the normal range;
  what rounds to \<open>2 ^ 1024\<close> or more overflows to an infinity.
\<close>

definition round_float :: "rat \<Rightarrow> float" where
  "round_float x =
     (if x = 0 then Finite 0
      else (let a = \<bar>x\<bar>; e = max (exponent a) (- 1022); q = pow2 (e - 52);
                y = of_int (round_half_even (a / q)) * q
            in if 1024 \<le> exponent y then Infinity (0 < x) else Finite (sgn x * y)))"

fun float_add :: "float \<Rightarrow> float \<Rightarrow> float" where
  "float_add (Finite x) (Finite y) = round_float (x + y)"
| "float_add NaN _ = NaN"
| "float_add _ NaN = NaN"
| "float_add (Infinity s) (Infinity s') = (if s = s' then Infinity s else NaN)"
| "float_add (Infinity s) (Finite y) = Infinity s"
| "float_add (Finite x) (Infinity s) = Infinity s"

fun float_mul :: "float \<Rightarrow> float \<Rightarrow> float" where
  "float_mul (Finite x) (Finite y) = round_float (x * y)"
| "float_mul NaN _ = NaN"
| "float_mul _ NaN = NaN"
| "float_mul (Infinity s) (Infinity s') = Infinity (s = s')"
| "float_mul (Infinity s) (Finite y) = (if y = 0 then NaN else Infinity (s = (0 < y)))"
| "float_mul (Finite x) (Infinity s) = (if x = 0 then NaN else Infinity (s = (0 < x)))"

text \<open>
  Python's operations on floats. The conversion of an \<^verbatim>\<open>int\<close> rounds in the same way; it
  raises \<^verbatim>\<open>OverflowError\<close> from \<open>2 ^ 1024\<close> on, which no count and no length reaches.
\<close>

definition double_ops :: "float float_ops" where
  "double_ops = \<lparr>fl_add = float_add, fl_mul = float_mul,
                  fl_of_int = (\<lambda>n. round_float (of_int n)), fl_literal = round_float\<rparr>"

subsection \<open>Listings\<close>

definition is_instructor_name_unique :: "heap \<Rightarrow> Gym \<Rightarrow> ref \<Rightarrow> bool" where
  "is_instructor_name_unique h g instructor =
     (let namelist = map (\<lambda>(instructor_id, instr). instr_name (h instr)) (instructors g)
      in if count_list namelist (instr_name (h instructor)) \<le> 1 then True else False)"

text \<open>
  The two \<^verbatim>\<open>strftime\<close> formats of an hour-aligned instant, "weekday, year-month-day" and
  "HH:MM", determine the day and the hour of the day and nothing else; the model keeps
  these two numbers in place of the text.
\<close>

definition strftime_date :: "datetime \<Rightarrow> nat" where
  "strftime_date t = t div 24"

definition strftime_time :: "datetime \<Rightarrow> nat" where
  "strftime_time t = t mod 24"

record offering_dict =
  Date :: nat
  Time :: nat
  Class :: string
  Room :: string
  Registered :: nat
  Available :: int
  Instructor_name :: string

text \<open>
  Modelled from the spec: \<^verbatim>\<open>create_offering_dict\<close> of \<^verbatim>\<open>gym_utilities\<close>, which is not
  among the sources. It builds the view record with the fields Date, Time, Class, Room,
  Registered, Available and Instructor from its seven arguments.
\<close>

definition create_offering_dict ::
  "nat \<Rightarrow> nat \<Rightarrow> string \<Rightarrow> string \<Rightarrow> nat \<Rightarrow> int \<Rightarrow> string \<Rightarrow> offering_dict" where
  "create_offering_dict date time class_name room registered available instructor =
     \<lparr>Date = date, Time = time, Class = class_name, Room = room, Registered = registered,
      Available = available, Instructor_name = instructor\<rparr>"

text \<open>The decimal text of a number, as an f-string prints it.\<close>

fun str_nat :: "nat \<Rightarrow> string" where
  "str_nat n = (if n < 10 then [char_of (48 + n)]
                else str_nat (n div 10) @ [char_of (48 + n mod 10)])"

declare str_nat.simps [simp del]

fun offerings_loop ::
  "heap \<Rightarrow> Gym \<Rightarrow> nat \<Rightarrow> nat \<Rightarrow> (string \<times> offering) list \<Rightarrow> string list \<Rightarrow> nat \<Rightarrow>
   offering_dict list \<Rightarrow> py_error + offering_dict list" where
  "offerings_loop h g date time info [] i lst1 = Inr lst1"
| "offerings_loop h g date time info (room # rest) i lst1 =
     (case map_of info room of
        None \<Rightarrow> Inl KeyError
      | Some (instructor_, workout, clients) \<Rightarrow>
     (let class_name = wc_name workout;
          instructor_name = instr_name (h instructor_);
          registered = length clients
      in case map_of (room_capacities g) room of
        None \<Rightarrow> Inl KeyError
      | Some capacity \<Rightarrow>
     (let available = capacity - int registered;
          available = (if available < 0 then 0 else available);
          ambiguous = (\<not> is_instructor_name_unique h g instructor_);
          i = (if ambiguous then i + 1 else i);
          instructor_name = (if ambiguous then instructor_name @ '' ('' @ str_nat i @ '')''
                             else instructor_name);
          result = create_offering_dict date time class_name room registered available
                     instructor_name
      in offerings_loop h g date time info rest i (lst1 @ [result]))))"

definition offerings_at :: "heap \<Rightarrow> Gym \<Rightarrow> datetime \<Rightarrow> py_error + offering_dict list" where
  "offerings_at h g time_point =
     (case map_of (schedule g) time_point of
        None \<Rightarrow> Inl KeyError
      | Some info \<Rightarrow>
          offerings_loop h g (strftime_date time_point) (strftime_time time_point) info
            (sort (map fst info)) 0 [])"

text \<open>Python indexing \<^verbatim>\<open>lst[i]\<close> and the module function \<^verbatim>\<open>swap\<close>.\<close>

definition py_index :: "'a list \<Rightarrow> int \<Rightarrow> py_error + nat" where
  "py_index lst i =
     (let n = int (length lst); j = (if i < 0 then n + i else i)
      in if 0 \<le> j \<and> j < n then Inr (nat j) else Inl IndexError)"

definition swap :: "'a list \<Rightarrow> int \<Rightarrow> int \<Rightarrow> py_error + 'a list" where
  "swap lst ind1 ind2 =
     (case py_index lst ind1 of
        Inl e \<Rightarrow> Inl e
      | Inr j1 \<Rightarrow>
     (case py_index lst ind2 of
        Inl e \<Rightarrow> Inl e
      | Inr j2 \<Rightarrow>
        (let value1 = lst ! j1; value2 = lst ! j2
         in Inr ((lst[j1 := value2])[j2 := value1]))))"

text \<open>An element of \<^verbatim>\<open>time_list2\<close>: a time that is later overwritten by a view record.\<close>

datatype entry = Slot datetime | Row offering_dict

fun collect_loop ::
  "heap \<Rightarrow> Gym \<Rightarrow> (datetime \<Rightarrow> bool) \<Rightarrow> datetime list \<Rightarrow> datetime list \<Rightarrow> offering_dict list \<Rightarrow>
   py_error + (datetime list \<times> offering_dict list)" where
  "collect_loop h g keep [] time_list1 lst1 = Inr (time_list1, lst1)"
| "collect_loop h g keep (time # rest) time_list1 lst1 =
     (if keep time then
        (case offerings_at h g time of
           Inl e \<Rightarrow> Inl e
         | Inr items \<Rightarrow> collect_loop h g keep rest (time_list1 @ [time]) (lst1 @ items))
      else collect_loop h g keep rest time_list1 lst1)"

function min_loop :: "datetime list \<Rightarrow> datetime list \<Rightarrow> datetime list" where
  "min_loop time_list1 time_list2 =
     (if time_list1 \<noteq> [] then
        min_loop (remove1 (min_list time_list1) time_list1)
                 (time_list2 @ [min_list time_list1])
      else time_list2)"
  by pat_completeness auto

fun place_loop ::
  "nat \<Rightarrow> nat \<Rightarrow> nat \<Rightarrow> offering_dict list \<Rightarrow> entry list \<Rightarrow> py_error + entry list" where
  "place_loop i date time [] time_list2 = Inr time_list2"
| "place_loop i date time (dict1 # rest) time_list2 =
     (if date = Date dict1 \<and> time = Time dict1 \<and> Row dict1 \<notin> set time_list2 then
        place_loop i date time rest (time_list2[i := Row dict1])
      else if date = Date dict1 \<and> time = Time dict1 \<and> Row dict1 \<in> set time_list2 then
        (let time_list2 = time_list2[i := Row dict1]
         in case py_index time_list2 (int i - 1) of
              Inl e \<Rightarrow> Inl e
            | Inr j \<Rightarrow>
           (case time_list2 ! j of
              Slot t \<Rightarrow> Inl TypeError
            | Row prev \<Rightarrow>
           (case Room prev of
              [] \<Rightarrow> Inl IndexError
            | c # cs \<Rightarrow>
           (if i < length (Room dict1) then
              (if c > Room dict1 ! i then
                 (case swap time_list2 (int i - 1) (int i) of
                    Inl e \<Rightarrow> Inl e
                  | Inr swapped \<Rightarrow> place_loop i date time rest swapped)
               else place_loop i date time rest time_list2)
            else Inl IndexError))))
      else place_loop i date time rest time_list2)"

function list_loop :: "nat \<Rightarrow> offering_dict list \<Rightarrow> entry list \<Rightarrow> py_error + entry list" where
  "list_loop i lst1 time_list2 =
     (if i < length time_list2 then
        (case time_list2 ! i of
           Row d \<Rightarrow> Inl AttributeError
         | Slot t \<Rightarrow>
             (case place_loop i (strftime_date t) (strftime_time t) lst1 time_list2 of
                Inl e \<Rightarrow> Inl e
              | Inr time_list2' \<Rightarrow> list_loop (i + 1) lst1 time_list2'))
      else Inr time_list2)"
  by pat_completeness auto

text \<open>
  \<^verbatim>\<open>in_week\<close> of \<^verbatim>\<open>gym_utilities\<close> is not among the sources; it is a parameter.
  \<open>week = None\<close> is the call without a week.
\<close>

definition to_schedule_list ::
  "(datetime \<Rightarrow> datetime \<Rightarrow> bool) \<Rightarrow> heap \<Rightarrow> Gym \<Rightarrow> datetime option \<Rightarrow> py_error + entry list" where
  "to_schedule_list in_week h g week =
     (case collect_loop h g (case week of None \<Rightarrow> (\<lambda>time. True)
                                        | Some w \<Rightarrow> (\<lambda>time. in_week time w))
             (map fst (schedule g)) [] [] of
        Inl e \<Rightarrow> Inl e
      | Inr (time_list1, lst1) \<Rightarrow> list_loop 0 lst1 (map Slot (min_loop time_list1 [])))"

subsection \<open>Sequences of calls\<close>

text \<open>
  A client of the module creates instructors and calls the methods one after the other.
  Every exception of \<^verbatim>\<open>schedule_workout_class\<close> and \<^verbatim>\<open>register\<close> is raised before the
  first assignment to the schedule, so a call that raises leaves the state as it was.
\<close>

datatype call =
    Add_certificate ref string
  | Add_instructor ref
  | Add_workout_class WorkoutClass
  | Add_room string int
  | Schedule_workout_class datetime string string int
  | Register datetime string string

fun do_call :: "heap \<times> Gym \<Rightarrow> call \<Rightarrow> heap \<times> Gym" where
  "do_call (h, g) (Add_certificate r certificate) =
     (h(r := snd (add_certificate (h r) certificate)), g)"
| "do_call (h, g) (Add_instructor r) = (h, snd (add_instructor h g r))"
| "do_call (h, g) (Add_workout_class workout_class) = (h, snd (add_workout_class g workout_class))"
| "do_call (h, g) (Add_room nm capacity) = (h, snd (add_room g nm capacity))"
| "do_call (h, g) (Schedule_workout_class time_point room_name workout_name instr_id) =
     (case schedule_workout_class h g time_point room_name workout_name instr_id of
        Inl e \<Rightarrow> (h, g)
      | Inr (ok, g') \<Rightarrow> (h, g'))"
| "do_call (h, g) (Register time_point client workout_name) =
     (case register g time_point client workout_name of
        Inl e \<Rightarrow> (h, g)
      | Inr (ok, g') \<Rightarrow> (h, g'))"

text \<open>The state after a sequence of calls on a fresh gym, from any store of instructors.\<close>

definition run :: "heap \<Rightarrow> string \<Rightarrow> call list \<Rightarrow> heap \<times> Gym" where
  "run h0 nm calls = foldl do_call (h0, Gym_init nm) calls"

subsection \<open>Notions used to state the properties\<close>

text \<open>The offerings of a time slot (none when the time is not a key of the schedule).\<close>

definition slot_at :: "Gym \<Rightarrow> datetime \<Rightarrow> (string \<times> offering) list" where
  "slot_at g t = (case map_of (schedule g) t of None \<Rightarrow> [] | Some slot \<Rightarrow> slot)"

definition offering_of :: "Gym \<Rightarrow> datetime \<Rightarrow> string \<Rightarrow> offering option" where
  "offering_of g t room = map_of (slot_at g t) room"

text \<open>The instructor object \<open>r\<close> teaches some offering at time \<open>t\<close>.\<close>

definition teaching_at :: "Gym \<Rightarrow> datetime \<Rightarrow> ref \<Rightarrow> bool" where
  "teaching_at g t r = (r \<in> set (map (\<lambda>(room, tup). fst tup) (slot_at g t)))"

text \<open>The clients and the teachers of a slot, room after room.\<close>

definition rosters :: "(string \<times> offering) list \<Rightarrow> string list" where
  "rosters slot = concat (map (\<lambda>(room, tup). snd (snd tup)) slot)"

definition teachers :: "(string \<times> offering) list \<Rightarrow> ref list" where
  "teachers slot = map (\<lambda>(room, tup). fst tup) slot"

text \<open>
  A slot without double booking: no room name occurs twice, no instructor object teaches
  twice, and no client occurs twice in the rosters of the slot.
\<close>

definition slot_ok :: "(string \<times> offering) list \<Rightarrow> bool" where
  "slot_ok slot = (distinct (map fst slot) \<and> distinct (teachers slot) \<and> distinct (rosters slot))"

definition no_double_booking :: "Gym \<Rightarrow> bool" where
  "no_double_booking g =
     (distinct (map fst (schedule g)) \<and> (\<forall>(t, slot) \<in> set (schedule g). slot_ok slot))"

text \<open>
  An offering is within capacity when its roster is no longer than the capacity recorded
  for its room; a room that has no recorded capacity must have an empty roster.
\<close>

definition within_capacity :: "Gym \<Rightarrow> string \<times> offering \<Rightarrow> bool" where
  "within_capacity g entry =
     (case map_of (room_capacities g) (fst entry) of
        None \<Rightarrow> snd (snd (snd entry)) = []
      | Some capacity \<Rightarrow> int (length (snd (snd (snd entry)))) \<le> capacity)"

definition capacity_respected :: "Gym \<Rightarrow> bool" where
  "capacity_respected g =
     (\<forall>(t, slot) \<in> set (schedule g). \<forall>entry \<in> set slot. within_capacity g entry)"

definition capacities_nonneg :: "Gym \<Rightarrow> bool" where
  "capacities_nonneg g = (\<forall>(room, capacity) \<in> set (room_capacities g). 0 \<le> capacity)"

text \<open>
  The data model of the specification gives a room a capacity above 0; \<^verbatim>\<open>add_room\<close> does
  not check it. The sequences considered for the capacity bound add no room of negative
  capacity.
\<close>

definition sensible_rooms :: "call list \<Rightarrow> bool" where
  "sensible_rooms calls =
     (\<forall>c \<in> set calls. case c of Add_room nm capacity \<Rightarrow> 0 \<le> capacity | _ \<Rightarrow> True)"

text \<open>
  The name of the instructor object \<open>r\<close> is held by more than one instructor of the
  registry.
\<close>

definition shared_name :: "heap \<Rightarrow> Gym \<Rightarrow> ref \<Rightarrow> bool" where
  "shared_name h g r =
     (1 < length (filter (\<lambda>(i, r'). instr_name (h r') = instr_name (h r)) (instructors g)))"

text \<open>The bare name, or the name with the number \<open>n\<close> in parentheses when it is shared.\<close>

definition display_name :: "heap \<Rightarrow> Gym \<Rightarrow> ref \<Rightarrow> nat \<Rightarrow> string" where
  "display_name h g r n =
     (if shared_name h g r then instr_name (h r) @ '' ('' @ str_nat n @ '')''
      else instr_name (h r))"

text \<open>
  The rendering in the words of the specification, for the instructors of a listing in
  display order: the number after a shared name counts the occurrences of that name so far
  (a counter per name). \<open>seen\<close> holds the names already displayed.
\<close>

fun claimed_names :: "heap \<Rightarrow> Gym \<Rightarrow> ref list \<Rightarrow> string list \<Rightarrow> string list" where
  "claimed_names h g [] seen = []"
| "claimed_names h g (r # rs) seen =
     display_name h g r (count_list seen (instr_name (h r)) + 1)
       # claimed_names h g rs (seen @ [instr_name (h r)])"

text \<open>
  The rendering of the docstring of \<^verbatim>\<open>offerings_at\<close>: a shared name is followed by the
  instructor's id.
\<close>

definition documented_names :: "heap \<Rightarrow> Gym \<Rightarrow> ref list \<Rightarrow> string list" where
  "documented_names h g rs = map (\<lambda>r. display_name h g r (nat (instr_ident (h r)))) rs"

text \<open>
  The number of offerings that the instructor object \<open>r\<close> teaches in the slots from \<open>time1\<close>
  to \<open>time2\<close>, and the number of those slots in which \<open>r\<close> teaches: one hour per slot.
\<close>

definition classes_taught ::
  "(datetime \<times> (string \<times> offering) list) list \<Rightarrow> datetime \<Rightarrow> datetime \<Rightarrow> ref \<Rightarrow> nat" where
  "classes_taught sched time1 time2 r =
     sum_list (map (\<lambda>(t, slot). if time1 \<le> t \<and> t \<le> time2 then count_list (teachers slot) r else 0)
                   sched)"

definition hours_taught :: "Gym \<Rightarrow> datetime \<Rightarrow> datetime \<Rightarrow> ref \<Rightarrow> int" where
  "hours_taught g time1 time2 r =
     int (length (filter (\<lambda>(t, slot). time1 \<le> t \<and> t \<le> time2 \<and> r \<in> set (teachers slot))
                         (schedule g)))"

text \<open>
  The wages of the specification, \<open>hours * (base_rate + 1.50 * certificates held)\<close>, in the
  float arithmetic \<open>fl\<close>, and the tuple of \<^verbatim>\<open>payroll\<close> for an entry (id, instructor object)
  of the registry.
\<close>

definition wages :: "'f float_ops \<Rightarrow> 'f \<Rightarrow> int \<Rightarrow> nat \<Rightarrow> 'f" where
  "wages fl base_rate hours certificate_count =
     fl_mul fl (fl_of_int fl hours)
       (fl_add fl base_rate
          (fl_mul fl (fl_literal fl (3 / 2)) (fl_of_int fl (int certificate_count))))"

definition pay_row_of ::
  "'f float_ops \<Rightarrow> heap \<Rightarrow> Gym \<Rightarrow> datetime \<Rightarrow> datetime \<Rightarrow> 'f \<Rightarrow> int \<times> ref \<Rightarrow> 'f pay_row" where
  "pay_row_of fl h g time1 time2 base_rate entry =
     (fst entry, instr_name (h (snd entry)), hours_taught g time1 time2 (snd entry),
      wages fl base_rate (hours_taught g time1 time2 (snd entry))
            (length (certificates (h (snd entry)))))"

text \<open>
  The registry is a dictionary (no key twice) that holds every instructor object under
  the object's own id, as \<^verbatim>\<open>add_instructor\<close> stores it; and no instructor teaches two
  offerings of one slot, the representation invariant of the class \<^verbatim>\<open>Gym\<close>.
\<close>

definition registry_ok :: "heap \<Rightarrow> Gym \<Rightarrow> bool" where
  "registry_ok h g =
     (distinct (map fst (instructors g)) \<and>
      (\<forall>(instr_id, r) \<in> set (instructors g). instr_ident (h r) = instr_id))"

definition one_class_per_instructor :: "Gym \<Rightarrow> bool" where
  "one_class_per_instructor g = (\<forall>(t, slot) \<in> set (schedule g). distinct (teachers slot))"

subsection \<open>Example states\<close>

text \<open>
  The instructors of the docstrings live at the addresses 101 to 105 and have the ids 1 to
  5: two called Diane (1 and 2), David (3), and two called Tom (4 and 5). Every other
  object of the store is a Tom as well; the object at 201 is a second object with the id 1.
\<close>

definition ex_heap :: heap where
  "ex_heap = (\<lambda>r. \<lparr>instr_ident = (if r = 201 then 1 else int r - 100),
       instr_name = (if r = 101 \<or> r = 102 then ''Diane''
                     else if r = 103 then ''David'' else ''Tom''),
       certificates = (if r = 101 then [''Cardio 1'']
                       else if r = 103 then [''Strength Training''] else [])\<rparr>)"

definition boot_camp :: WorkoutClass where
  "boot_camp = \<lparr>wc_name = ''Boot Camp'', required_certificates = [''Cardio 1'']\<rparr>"

definition intro_tap :: WorkoutClass where
  "intro_tap = \<lparr>wc_name = ''Intro Tap'', required_certificates = []\<rparr>"

definition kickboxing :: WorkoutClass where
  "kickboxing = \<lparr>wc_name = ''KickBoxing'', required_certificates = [''Strength Training'']\<rparr>"

text \<open>Two rooms with the same class at 12:00: 5 of 20 and 8 of 10 places taken.\<close>

definition ex_packing :: Gym where
  "ex_packing = \<lparr>gym_name = ''Athletic Centre'', instructors = [(1, 101), (2, 102)],
     workouts = [(''Intro Tap'', intro_tap)],
     room_capacities = [(''Room A'', 20), (''Room B'', 10)],
     schedule = [(12, [(''Room A'', (101, intro_tap, [''a1'', ''a2'', ''a3'', ''a4'', ''a5''])),
                       (''Room B'', (102, intro_tap, [''b1'', ''b2'', ''b3'', ''b4'', ''b5'',
                                                     ''b6'', ''b7'', ''b8'']))])]\<rparr>"

text \<open>Two rooms with two different classes at 12:00, both empty.\<close>

definition ex_two_classes :: Gym where
  "ex_two_classes = \<lparr>gym_name = ''Athletic Centre'', instructors = [(1, 101), (2, 102)],
     workouts = [(''Boot Camp'', boot_camp), (''Intro Tap'', intro_tap)],
     room_capacities = [(''Dance Studio'', 18), (''lower gym'', 50)],
     schedule = [(12, [(''lower gym'', (101, boot_camp, [])),
                       (''Dance Studio'', (102, intro_tap, []))])]\<rparr>"

text \<open>The gym of the docstring of \<^verbatim>\<open>offerings_at\<close>.\<close>

definition ex_listing :: Gym where
  "ex_listing = \<lparr>gym_name = ''Athletic Centre'', instructors = [(1, 101), (2, 102), (3, 103)],
     workouts = [(''Boot Camp'', boot_camp), (''KickBoxing'', kickboxing)],
     room_capacities = [(''Dance Studio'', 50), (''Room A'', 20)],
     schedule = [(12, [(''Dance Studio'', (101, boot_camp, [])),
                       (''Room A'', (103, kickboxing, []))])]\<rparr>"

text \<open>Instructor 1 teaches Boot Camp in the lower gym at 12:00; the dance studio is free.\<close>

definition ex_conflict :: Gym where
  "ex_conflict = \<lparr>gym_name = ''Athletic Centre'', instructors = [(1, 101), (3, 103)],
     workouts = [(''Boot Camp'', boot_camp), (''KickBoxing'', kickboxing)],
     room_capacities = [(''Dance Studio'', 18), (''lower gym'', 50)],
     schedule = [(12, [(''lower gym'', (101, boot_camp, []))])]\<rparr>"

text \<open>
  A session: the second scheduling call asks for a busy instructor, Philip registers twice,
  and Ann finds the only Boot Camp room (capacity 1) full.
\<close>

definition ex_calls :: "call list" where
  "ex_calls =
     [Add_instructor 101, Add_instructor 103,
      Add_room ''Dance Studio'' 18, Add_room ''lower gym'' 1,
      Add_workout_class boot_camp, Add_workout_class kickboxing,
      Schedule_workout_class 12 ''lower gym'' ''Boot Camp'' 1,
      Schedule_workout_class 12 ''Dance Studio'' ''Boot Camp'' 1,
      Register 12 ''Philip'' ''Boot Camp'',
      Register 12 ''Philip'' ''Boot Camp'',
      Register 12 ''Ann'' ''Boot Camp'']"

definition ex_after_calls :: Gym where
  "ex_after_calls = \<lparr>gym_name = ''Athletic Centre'', instructors = [(1, 101), (3, 103)],
     workouts = [(''Boot Camp'', boot_camp), (''KickBoxing'', kickboxing)],
     room_capacities = [(''Dance Studio'', 18), (''lower gym'', 1)],
     schedule = [(12, [(''lower gym'', (101, boot_camp, [''Philip'']))])]\<rparr>"

text \<open>Five rooms at 12:00, taught by Diane, Diane, David, Tom and Tom.\<close>

definition ex_names_slot :: "(string \<times> offering) list" where
  "ex_names_slot = [(''A'', (101, intro_tap, [])), (''B'', (102, intro_tap, [])),
                    (''C'', (103, intro_tap, [])), (''D'', (104, intro_tap, [])),
                    (''E'', (105, intro_tap, []))]"

definition ex_names :: Gym where
  "ex_names = \<lparr>gym_name = ''Athletic Centre'',
     instructors = [(1, 101), (2, 102), (3, 103), (4, 104), (5, 105)],
     workouts = [(''Intro Tap'', intro_tap)],
     room_capacities = [(''A'', 10), (''B'', 10), (''C'', 10), (''D'', 10), (''E'', 10)],
     schedule = [(12, ex_names_slot)]\<rparr>"

text \<open>
  The gym of the docstring of \<^verbatim>\<open>payroll\<close>: David is added before Diane, and Diane, who
  holds one certificate, teaches one class at 12:00.
\<close>

definition ex_payroll :: Gym where
  "ex_payroll = \<lparr>gym_name = ''Athletic Centre'', instructors = [(3, 103), (1, 101)],
     workouts = [(''Boot Camp'', boot_camp)],
     room_capacities = [(''Dance Studio'', 50)],
     schedule = [(12, [(''Dance Studio'', (101, boot_camp, []))])]\<rparr>"

text \<open>Instructor 2, who holds no certificate, teaches at 12:00, 13:00 and 14:00.\<close>

definition ex_three_hours :: Gym where
  "ex_three_hours = \<lparr>gym_name = ''Athletic Centre'', instructors = [(2, 102)],
     workouts = [(''Intro Tap'', intro_tap)],
     room_capacities = [(''Dance Studio'', 50)],
     schedule = [(12, [(''Dance Studio'', (102, intro_tap, []))]),
                 (13, [(''Dance Studio'', (102, intro_tap, []))]),
                 (14, [(''Dance Studio'', (102, intro_tap, []))])]\<rparr>"

section \<open>Termination of the loops\<close>

lemma min_list_mem: "xs \<noteq> [] \<Longrightarrow> min_list xs \<in> set xs"
  by (induction xs rule: min_list.induct) (auto simp: min_def split: list.splits)

termination min_loop
  by (relation "measure (\<lambda>(time_list1, time_list2). length time_list1)")
     (auto simp: length_remove1 min_list_mem intro!: diff_less length_pos_if_in_set)

declare min_loop.simps [simp del]

lemma swap_length: "swap lst a b = Inr lst' \<Longrightarrow> length lst' = length lst"
  by (auto simp: swap_def Let_def split: sum.splits)

lemma place_loop_length:
  "place_loop i date time lst1 time_list2 = Inr res \<Longrightarrow> length res = length time_list2"
proof (induction lst1 arbitrary: time_list2)
  case Nil
  then show ?case by simp
next
  case (Cons dict1 rest)
  then show ?case
    by (auto simp: Let_def split: if_splits sum.splits entry.splits list.splits
             dest!: swap_length)
qed

termination list_loop
  by (relation "measure (\<lambda>(i, lst1, time_list2). length time_list2 - i)")
     (auto dest!: place_loop_length)

declare list_loop.simps [simp del]

section \<open>Dictionaries\<close>

lemma has_key_map_of: "has_key d k \<longleftrightarrow> map_of d k \<noteq> None"
  by (simp add: has_key_def map_of_eq_None_iff)

lemma has_key_update: "has_key (AList.update k v d) k' \<longleftrightarrow> k' = k \<or> has_key d k'"
  by (auto simp: has_key_map_of update_conv')

lemma update_append_new: "k \<notin> fst ` set al \<Longrightarrow> AList.update k v al = al @ [(k, v)]"
  by (induction al) auto

lemma set_update_subset: "set (AList.update k v al) \<subseteq> insert (k, v) (set al)"
  by (induction al) auto

lemma update_split:
  "map_of al k = Some v \<Longrightarrow>
   \<exists>pre post. al = pre @ (k, v) # post \<and> (\<forall>v'. AList.update k v' al = pre @ (k, v') # post)"
proof (induction al)
  case Nil
  then show ?case by simp
next
  case (Cons a al)
  show ?case
  proof (cases "fst a = k")
    case True
    with Cons.prems have "a = (k, v)" by (cases a) auto
    then have "a # al = [] @ (k, v) # al \<and> (\<forall>v'. AList.update k v' (a # al) = [] @ (k, v') # al)"
      by simp
    then show ?thesis by blast
  next
    case False
    with Cons.prems have "map_of al k = Some v" by (cases a) auto
    from Cons.IH [OF this] obtain pre post where
      "al = pre @ (k, v) # post" "\<forall>v'. AList.update k v' al = pre @ (k, v') # post" by blast
    with False have "a # al = (a # pre) @ (k, v) # post \<and>
       (\<forall>v'. AList.update k v' (a # al) = (a # pre) @ (k, v') # post)"
      by (cases a) auto
    then show ?thesis by blast
  qed
qed

section \<open>The registries\<close>

text \<open>
  C8. For \<^verbatim>\<open>add_instructor\<close>, \<^verbatim>\<open>add_workout_class\<close>, \<^verbatim>\<open>add_room\<close> and
  \<^verbatim>\<open>Instructor.add_certificate\<close>: a second call with the same key (an instructor object of
  the same id, a workout class of the same name, the same room name with any capacity, the
  same certificate) returns \<^verbatim>\<open>False\<close> and leaves the state exactly as the first call left it;
  what a successful first call stored is what is found under the key.
\<close>

theorem add_twice_same_key:
  assumes "instr_ident (h r') = instr_ident (h r)" and "wc_name w' = wc_name w"
  shows "add_instructor h (snd (add_instructor h g r)) r' = (False, snd (add_instructor h g r)) \<and>
         (fst (add_instructor h g r) \<longrightarrow>
            map_of (instructors (snd (add_instructor h g r))) (instr_ident (h r)) = Some r) \<and>
         add_workout_class (snd (add_workout_class g w)) w' = (False, snd (add_workout_class g w)) \<and>
         (fst (add_workout_class g w) \<longrightarrow>
            map_of (workouts (snd (add_workout_class g w))) (wc_name w) = Some w) \<and>
         add_room (snd (add_room g nm c)) nm c' = (False, snd (add_room g nm c)) \<and>
         (fst (add_room g nm c) \<longrightarrow>
            map_of (room_capacities (snd (add_room g nm c))) nm = Some c) \<and>
         add_certificate (snd (add_certificate i cert)) cert = (False, snd (add_certificate i cert)) \<and>
         (fst (add_certificate i cert) \<longrightarrow>
            certificates (snd (add_certificate i cert)) = certificates i @ [cert])"
  using assms
  by (auto simp: add_instructor_def add_workout_class_def add_room_def add_certificate_def
        has_key_update update_conv')

text \<open>
  The witness: a second object with the id of the first, a second Boot Camp with other
  certificates, the dance studio with another capacity, and Cardio 1 once more.
\<close>

theorem add_twice_same_key_witness:
  "instr_ident (ex_heap 201) = instr_ident (ex_heap 101) \<and> (201::ref) \<noteq> 101 \<and>
   wc_name (boot_camp\<lparr>required_certificates := []\<rparr>) = wc_name boot_camp \<and>
   fst (add_instructor ex_heap (Gym_init ''Athletic Centre'') 101) \<and>
   add_instructor ex_heap
     (snd (add_instructor ex_heap (Gym_init ''Athletic Centre'') 101)) 201 =
     (False, (Gym_init ''Athletic Centre'')\<lparr>instructors := [(1, 101)]\<rparr>) \<and>
   add_workout_class (snd (add_workout_class (Gym_init ''Athletic Centre'') boot_camp))
     (boot_camp\<lparr>required_certificates := []\<rparr>) =
     (False, (Gym_init ''Athletic Centre'')\<lparr>workouts := [(''Boot Camp'', boot_camp)]\<rparr>) \<and>
   add_room (snd (add_room (Gym_init ''Athletic Centre'') ''Dance Studio'' 50)) ''Dance Studio'' 18 =
     (False, (Gym_init ''Athletic Centre'')\<lparr>room_capacities := [(''Dance Studio'', 50)]\<rparr>) \<and>
   add_certificate (snd (add_certificate (ex_heap 102) ''Cardio 1'')) ''Cardio 1'' =
     (False, (ex_heap 102)\<lparr>certificates := [''Cardio 1'']\<rparr>)"
proof -
  have same_id: "instr_ident (ex_heap 201) = instr_ident (ex_heap 101)"
    by (simp add: ex_heap_def)
  have same_name: "wc_name (boot_camp\<lparr>required_certificates := []\<rparr>) = wc_name boot_camp"
    by simp
  show ?thesis
    using add_twice_same_key [OF same_id same_name, where g = "Gym_init ''Athletic Centre''"
            and nm = "''Dance Studio''" and c = 50 and c' = 18 and i = "ex_heap 102"
            and cert = "''Cardio 1''"]
    by (simp add: add_instructor_def add_workout_class_def add_room_def add_certificate_def
          Gym_init_def has_key_def ex_heap_def boot_camp_def)
qed

section \<open>Scheduling\<close>

lemma instr_busy_loop_iff:
  "instr_busy_loop instructor slot b \<longleftrightarrow>
     b \<or> instructor \<in> set (map (\<lambda>(room, tup). fst tup) slot)"
  by (induction instructor slot b rule: instr_busy_loop.induct)
     (auto simp: instructor_in_def split: if_splits)

text \<open>
  C4. When the instructor id and the workout name are keys of their registries,
  \<^verbatim>\<open>schedule_workout_class\<close> returns normally, and it returns \<^verbatim>\<open>True\<close> exactly when the
  instructor teaches nowhere at \<open>time_point\<close>, the room has no offering at \<open>time_point\<close> and
  the instructor holds every required certificate. In that case the room holds the new
  offering with an empty client list, every other (time, room) is as before and so are the
  registries; otherwise the gym is unchanged. (The room's own registry entry is never read,
  so the theorem needs no hypothesis on it.)
\<close>

theorem schedule_workout_class_iff:
  assumes "map_of (instructors g) instr_id = Some instructor"
      and "map_of (workouts g) workout_name = Some workout"
  shows "\<exists>g'. schedule_workout_class h g time_point room_name workout_name instr_id =
               Inr (\<not> teaching_at g time_point instructor \<and>
                    offering_of g time_point room_name = None \<and>
                    set (required_certificates workout) \<subseteq> set (certificates (h instructor)), g') \<and>
          (if \<not> teaching_at g time_point instructor \<and>
              offering_of g time_point room_name = None \<and>
              set (required_certificates workout) \<subseteq> set (certificates (h instructor))
           then offering_of g' time_point room_name = Some (instructor, workout, []) \<and>
                (\<forall>t r. (t, r) \<noteq> (time_point, room_name) \<longrightarrow>
                       offering_of g' t r = offering_of g t r) \<and>
                g' = g\<lparr>schedule := schedule g'\<rparr>
           else g' = g)"
  using assms
  by (auto simp: schedule_workout_class_def Let_def teaching_at_def offering_of_def slot_at_def
        has_key_map_of instr_busy_loop_iff update_conv' split: option.splits)

text \<open>
  The witness is the scenario of the specification: instructor 1 teaches Boot Camp in the
  lower gym at 12:00, so scheduling the same instructor into the dance studio at 12:00
  fails and the dance studio stays free; at 13:00 the same call succeeds.
\<close>

theorem schedule_workout_class_iff_witness:
  "map_of (instructors ex_conflict) 1 = Some 101 \<and>
   map_of (workouts ex_conflict) ''Boot Camp'' = Some boot_camp \<and>
   schedule_workout_class ex_heap ex_conflict 12 ''Dance Studio'' ''Boot Camp'' 1 =
     Inr (False, ex_conflict) \<and>
   offering_of ex_conflict 12 ''Dance Studio'' = None \<and>
   (\<exists>g'. schedule_workout_class ex_heap ex_conflict 13 ''Dance Studio'' ''Boot Camp'' 1 =
            Inr (True, g') \<and>
          offering_of g' 13 ''Dance Studio'' = Some (101, boot_camp, []))"
proof -
  have instr: "map_of (instructors ex_conflict) 1 = Some 101"
    by (simp add: ex_conflict_def)
  have wk: "map_of (workouts ex_conflict) ''Boot Camp'' = Some boot_camp"
    by (simp add: ex_conflict_def)
  have busy: "teaching_at ex_conflict 12 101"
    by (simp add: teaching_at_def slot_at_def ex_conflict_def)
  have vacant: "\<not> teaching_at ex_conflict 13 101" "offering_of ex_conflict 13 ''Dance Studio'' = None"
    "offering_of ex_conflict 12 ''Dance Studio'' = None"
    by (simp_all add: teaching_at_def offering_of_def slot_at_def ex_conflict_def)
  have certs: "set (required_certificates boot_camp) \<subseteq> set (certificates (ex_heap 101))"
    by (simp add: boot_camp_def ex_heap_def)
  show ?thesis
    using schedule_workout_class_iff [OF instr wk, where h = ex_heap and time_point = 12
            and room_name = "''Dance Studio''"]
          schedule_workout_class_iff [OF instr wk, where h = ex_heap and time_point = 13
            and room_name = "''Dance Studio''"]
    by (auto simp: instr wk busy vacant certs)
qed

lemma schedule_TrueD:
  assumes "schedule_workout_class h g t room wn iid = Inr (True, g')"
  shows "\<exists>i wk. map_of (instructors g) iid = Some i \<and> map_of (workouts g) wn = Some wk \<and>
           room \<notin> fst ` set (slot_at g t) \<and> i \<notin> set (teachers (slot_at g t)) \<and>
           g' = g\<lparr>schedule := AList.update t (slot_at g t @ [(room, (i, wk, []))]) (schedule g)\<rparr>"
  using assms
  by (auto simp: schedule_workout_class_def Let_def slot_at_def teachers_def has_key_def
        instr_busy_loop_iff update_append_new split: option.splits if_splits)

lemma schedule_FalseD:
  "schedule_workout_class h g t room wn iid = Inr (False, g') \<Longrightarrow> g' = g"
  by (auto simp: schedule_workout_class_def Let_def has_key_def split: option.splits if_splits)

section \<open>Registration\<close>

lemma py_max_mem: "py_max xs = Inr m \<Longrightarrow> m \<in> set xs"
proof -
  have "fold max ys (y::int) \<in> set (y # ys)" for y ys
    by (induction ys arbitrary: y) (auto simp: max_def)
  then show "py_max xs = Inr m \<Longrightarrow> m \<in> set xs"
    by (cases xs) auto
qed

lemma register_loop_SomeD:
  "register_loop g t wk cfree slot wr0 = Inr (Some wr) \<Longrightarrow>
     (slot \<noteq> [] \<longrightarrow> cfree) \<and>
     (\<forall>(space, room) \<in> set wr. (space, room) \<in> set wr0 \<or>
          (room_space g t room = Inr space \<and> 0 < space))"
proof (induction slot arbitrary: wr0)
  case Nil
  then show ?case by auto
next
  case (Cons a slot)
  obtain room tup where a: "a = (room, tup)" by (cases a)
  from Cons.prems a obtain space where
    sp: "room_space g t room = Inr space" "0 < space" "cfree"
    and rest: "register_loop g t wk cfree slot (AList.update space room wr0) = Inr (Some wr)"
    by (auto split: if_splits sum.splits)
  from Cons.IH [OF rest] set_update_subset [of space room wr0] sp
  show ?case by fastforce
qed

lemma register_TrueD:
  assumes "register g t client wn = Inr (True, g')"
  shows "\<exists>slot room i wk cl c. map_of (schedule g) t = Some slot \<and>
           map_of slot room = Some (i, wk, cl) \<and>
           map_of (room_capacities g) room = Some c \<and> int (length cl) < c \<and>
           client \<notin> set (rosters slot) \<and>
           g' = g\<lparr>schedule := AList.update t (AList.update room (i, wk, cl @ [client]) slot)
                                 (schedule g)\<rparr>"
proof -
  from assms obtain workout cfree slot wr best chosen i wk cl where
    cf: "client_free g t client = Inr cfree" and
    sl: "map_of (schedule g) t = Some slot" and
    lp: "register_loop g t workout cfree slot [] = Inr (Some wr)" and
    mx: "py_max (map fst wr) = Inr best" and
    ch: "map_of wr best = Some chosen" and
    tp: "map_of slot chosen = Some (i, wk, cl)" and
    g': "g' = g\<lparr>schedule := AList.update t (AList.update chosen (i, wk, cl @ [client]) slot)
                                 (schedule g)\<rparr>"
    by (auto simp: register_def split: option.splits sum.splits prod.splits)
  from tp have "slot \<noteq> []" by auto
  with register_loop_SomeD [OF lp] have cfree by simp
  with cf sl have nin: "client \<notin> set (rosters slot)"
    by (auto simp: client_free_def rosters_def Let_def split: if_splits)
  from ch have "(best, chosen) \<in> set wr" by (rule map_of_SomeD)
  with register_loop_SomeD [OF lp] have "room_space g t chosen = Inr best" "0 < best"
    by auto
  with sl tp obtain c where "map_of (room_capacities g) chosen = Some c" "int (length cl) < c"
    by (auto simp: room_space_def Let_def split: option.splits)
  with sl tp nin g' show ?thesis by blast
qed

lemma register_FalseD: "register g t client wn = Inr (False, g') \<Longrightarrow> g' = g"
  by (auto simp: register_def split: option.splits sum.splits prod.splits)

text \<open>
  C1. The specification and the docstring of \<^verbatim>\<open>register\<close> place the client in the room
  with the most clients that still has space. The code keys its candidates by free space
  and takes the largest key: with 5 of 20 and 8 of 10 places taken, the new client joins
  the room with 5 of 20.
\<close>

theorem register_takes_emptiest_room:
  "register ex_packing 12 ''new'' ''Intro Tap'' =
     Inr (True, ex_packing\<lparr>schedule :=
       [(12, [(''Room A'', (101, intro_tap, [''a1'', ''a2'', ''a3'', ''a4'', ''a5'', ''new''])),
              (''Room B'', (102, intro_tap, [''b1'', ''b2'', ''b3'', ''b4'', ''b5'',
                                            ''b6'', ''b7'', ''b8'']))])]\<rparr>)"
  by code_simp

text \<open>
  C2. The specification and the docstring make the result depend on the client and on the
  rooms that offer the workout. The loop of the code returns \<^verbatim>\<open>False\<close> at the first room of
  the slot that offers another workout: Philip is in no roster and the lower gym offers
  Boot Camp with 50 free places, yet the registration is refused because the dance studio
  offers Intro Tap at the same time.
\<close>

theorem register_refused_by_other_class:
  "client_free ex_two_classes 12 ''Philip'' = Inr True \<and>
   room_space ex_two_classes 12 ''lower gym'' = Inr 50 \<and>
   offering_of ex_two_classes 12 ''lower gym'' = Some (101, boot_camp, []) \<and>
   register ex_two_classes 12 ''Philip'' ''Boot Camp'' = Inr (False, ex_two_classes)"
  by code_simp

section \<open>Invariants of the schedule\<close>

lemma slot_at_ok: "no_double_booking g \<Longrightarrow> slot_ok (slot_at g t)"
  by (auto simp: no_double_booking_def slot_at_def slot_ok_def teachers_def rosters_def
        split: option.splits dest!: map_of_SomeD)

lemma ndb_update:
  assumes "no_double_booking g" and "slot_ok slot'"
  shows "no_double_booking (g\<lparr>schedule := AList.update t slot' (schedule g)\<rparr>)"
  using assms set_update_subset [of t slot' "schedule g"]
  by (auto simp: no_double_booking_def distinct_update)

lemma slot_ok_new:
  assumes "slot_ok slot" "room \<notin> fst ` set slot" "i \<notin> set (teachers slot)"
  shows "slot_ok (slot @ [(room, (i, wk, []))])"
  using assms by (auto simp: slot_ok_def teachers_def rosters_def)

lemma slot_ok_append_client:
  assumes "slot_ok slot" "map_of slot room = Some (i, wk, cl)" "client \<notin> set (rosters slot)"
  shows "slot_ok (AList.update room (i, wk, cl @ [client]) slot)"
proof -
  from update_split [OF assms(2)] obtain pre post where
    sp: "slot = pre @ (room, (i, wk, cl)) # post"
    and up: "AList.update room (i, wk, cl @ [client]) slot = pre @ (room, (i, wk, cl @ [client])) # post"
    by blast
  from assms(1,3) show ?thesis
    unfolding up unfolding sp
    by (auto simp: slot_ok_def teachers_def rosters_def)
qed

lemma ndb_schedule:
  assumes "schedule_workout_class h g t room wn iid = Inr (ok, g')" "no_double_booking g"
  shows "no_double_booking g'"
proof (cases ok)
  case True
  with assms(1) have "schedule_workout_class h g t room wn iid = Inr (True, g')" by simp
  from schedule_TrueD [OF this] obtain i wk where
    "room \<notin> fst ` set (slot_at g t)" "i \<notin> set (teachers (slot_at g t))"
    "g' = g\<lparr>schedule := AList.update t (slot_at g t @ [(room, (i, wk, []))]) (schedule g)\<rparr>"
    by blast
  with assms(2) show ?thesis
    by (simp add: ndb_update slot_ok_new slot_at_ok)
next
  case False
  with assms show ?thesis by (auto dest: schedule_FalseD)
qed

lemma ndb_register:
  assumes "register g t client wn = Inr (ok, g')" "no_double_booking g"
  shows "no_double_booking g'"
proof (cases ok)
  case True
  with assms(1) have "register g t client wn = Inr (True, g')" by simp
  from register_TrueD [OF this] obtain slot room i wk cl where
    sl: "map_of (schedule g) t = Some slot" "map_of slot room = Some (i, wk, cl)"
    "client \<notin> set (rosters slot)"
    "g' = g\<lparr>schedule := AList.update t (AList.update room (i, wk, cl @ [client]) slot) (schedule g)\<rparr>"
    by blast
  from sl(1) have "slot = slot_at g t" by (simp add: slot_at_def)
  with assms(2) have "slot_ok slot" by (simp add: slot_at_ok)
  with sl assms(2) show ?thesis
    by (simp add: ndb_update slot_ok_append_client)
next
  case False
  with assms show ?thesis by (auto dest: register_FalseD)
qed

lemma ndb_do_call: "no_double_booking (snd s) \<Longrightarrow> no_double_booking (snd (do_call s c))"
proof (cases s; cases c)
qed (auto simp: add_instructor_def add_workout_class_def add_room_def no_double_booking_def
      split: sum.splits dest: ndb_schedule [unfolded no_double_booking_def]
                              ndb_register [unfolded no_double_booking_def])

lemma ndb_foldl: "no_double_booking (snd s) \<Longrightarrow> no_double_booking (snd (foldl do_call s calls))"
  by (induction calls arbitrary: s) (simp_all add: ndb_do_call)

text \<open>
  C5. After every sequence of calls on a fresh gym (calls that succeed, fail or raise,
  with any instructors, rooms and workout classes added in between), the schedule has no
  double booking: no time occurs twice as a key and, in every slot, no room holds two
  offerings, no instructor object teaches two offerings, and no client is in two rosters
  (nor twice in one). Every prefix of a sequence is a sequence, so this holds at every
  point of the run.
\<close>

theorem no_double_booking_run: "no_double_booking (snd (run h nm calls))"
  unfolding run_def by (rule ndb_foldl) (simp add: no_double_booking_def Gym_init_def)

lemma run_ex_calls: "snd (run ex_heap ''Athletic Centre'' ex_calls) = ex_after_calls"
  by code_simp

theorem no_double_booking_run_witness:
  "schedule (snd (run ex_heap ''Athletic Centre'' ex_calls)) =
     [(12, [(''lower gym'', (101, boot_camp, [''Philip'']))])] \<and>
   no_double_booking (snd (run ex_heap ''Athletic Centre'' ex_calls)) \<and>
   slot_ok [(''lower gym'', (101, boot_camp, [''Philip'']))]"
  using no_double_booking_run [of ex_heap "''Athletic Centre''" ex_calls]
  by (simp add: run_ex_calls no_double_booking_def ex_after_calls_def)

lemma slot_at_mem: "entry \<in> set (slot_at g t) \<Longrightarrow> \<exists>slot. (t, slot) \<in> set (schedule g) \<and> entry \<in> set slot"
  by (cases "map_of (schedule g) t") (auto simp: slot_at_def dest: map_of_SomeD)

lemma cap_update:
  assumes "capacity_respected g" and "\<forall>entry \<in> set slot'. within_capacity g entry"
  shows "capacity_respected (g\<lparr>schedule := AList.update t slot' (schedule g)\<rparr>)"
  using assms set_update_subset [of t slot' "schedule g"]
  by (fastforce simp: capacity_respected_def within_capacity_def)

lemma cap_schedule:
  assumes "schedule_workout_class h g t room wn iid = Inr (ok, g')"
    and "capacities_nonneg g" and "capacity_respected g"
  shows "capacities_nonneg g' \<and> capacity_respected g'"
proof (cases ok)
  case True
  with assms(1) have "schedule_workout_class h g t room wn iid = Inr (True, g')" by simp
  from schedule_TrueD [OF this] obtain i wk where
    g': "g' = g\<lparr>schedule := AList.update t (slot_at g t @ [(room, (i, wk, []))]) (schedule g)\<rparr>"
    by blast
  have new: "within_capacity g (room, (i, wk, []))"
    using assms(2)
    by (auto simp: within_capacity_def capacities_nonneg_def split: option.splits
             dest!: map_of_SomeD)
  have old: "\<forall>entry \<in> set (slot_at g t). within_capacity g entry"
    using assms(3) by (auto simp: capacity_respected_def dest!: slot_at_mem)
  from new old have "\<forall>entry \<in> set (slot_at g t @ [(room, (i, wk, []))]). within_capacity g entry"
    by simp
  from cap_update [OF assms(3) this] assms(2) show ?thesis
    unfolding g' by (simp add: capacities_nonneg_def)
next
  case False
  with assms show ?thesis by (auto dest: schedule_FalseD)
qed

lemma cap_register:
  assumes "register g t client wn = Inr (ok, g')"
    and "capacities_nonneg g" and "capacity_respected g"
  shows "capacities_nonneg g' \<and> capacity_respected g'"
proof (cases ok)
  case True
  with assms(1) have "register g t client wn = Inr (True, g')" by simp
  from register_TrueD [OF this] obtain slot room i wk cl c where
    sl: "map_of (schedule g) t = Some slot" and
    cp: "map_of (room_capacities g) room = Some c" "int (length cl) < c" and
    g': "g' = g\<lparr>schedule := AList.update t (AList.update room (i, wk, cl @ [client]) slot) (schedule g)\<rparr>"
    by blast
  from cp have new: "within_capacity g (room, (i, wk, cl @ [client]))"
    by (simp add: within_capacity_def)
  from sl have "(t, slot) \<in> set (schedule g)" by (rule map_of_SomeD)
  with assms(3) have old: "\<forall>entry \<in> set slot. within_capacity g entry"
    by (auto simp: capacity_respected_def)
  from new old set_update_subset [of room "(i, wk, cl @ [client])" slot]
  have "\<forall>entry \<in> set (AList.update room (i, wk, cl @ [client]) slot). within_capacity g entry"
    by auto
  from cap_update [OF assms(3) this] assms(2) show ?thesis
    unfolding g' by (simp add: capacities_nonneg_def)
next
  case False
  with assms show ?thesis by (auto dest: register_FalseD)
qed

lemma cap_add_room:
  assumes "0 \<le> c" "capacities_nonneg g" "capacity_respected g"
  shows "capacities_nonneg (snd (add_room g nm c)) \<and> capacity_respected (snd (add_room g nm c))"
proof (cases "has_key (room_capacities g) nm")
  case True
  with assms show ?thesis by (simp add: add_room_def)
next
  case False
  then have none: "map_of (room_capacities g) nm = None" by (simp add: has_key_map_of)
  have "capacities_nonneg (g\<lparr>room_capacities := AList.update nm c (room_capacities g)\<rparr>)"
    using assms(1,2) set_update_subset [of nm c "room_capacities g"]
    by (auto simp: capacities_nonneg_def)
  moreover have "capacity_respected (g\<lparr>room_capacities := AList.update nm c (room_capacities g)\<rparr>)"
    using assms(1,3) none
    by (fastforce simp: capacity_respected_def within_capacity_def update_conv'
          split: option.splits)
  ultimately show ?thesis using False by (simp add: add_room_def)
qed

lemma cap_do_call:
  assumes "case c of Add_room nm capacity \<Rightarrow> 0 \<le> capacity | _ \<Rightarrow> True"
    and "capacities_nonneg (snd s) \<and> capacity_respected (snd s)"
  shows "capacities_nonneg (snd (do_call s c)) \<and> capacity_respected (snd (do_call s c))"
proof (cases s)
  case (Pair h g)
  show ?thesis
  proof (cases c)
    case (Add_certificate r cert)
    with Pair assms show ?thesis by simp
  next
    case (Add_instructor r)
    with Pair assms show ?thesis
      by (simp add: add_instructor_def capacities_nonneg_def capacity_respected_def
            within_capacity_def)
  next
    case (Add_workout_class w)
    with Pair assms show ?thesis
      by (simp add: add_workout_class_def capacities_nonneg_def capacity_respected_def
            within_capacity_def)
  next
    case (Add_room nm capacity)
    with Pair assms show ?thesis by (simp add: cap_add_room)
  next
    case (Schedule_workout_class t room wn iid)
    with Pair assms show ?thesis
      by (auto split: sum.splits dest: cap_schedule)
  next
    case (Register t client wn)
    with Pair assms show ?thesis
      by (auto split: sum.splits dest: cap_register)
  qed
qed

lemma cap_foldl:
  "sensible_rooms calls \<Longrightarrow> capacities_nonneg (snd s) \<and> capacity_respected (snd s) \<Longrightarrow>
   capacities_nonneg (snd (foldl do_call s calls)) \<and> capacity_respected (snd (foldl do_call s calls))"
proof (induction calls arbitrary: s)
  case Nil
  then show ?case by simp
next
  case (Cons c calls)
  from Cons.prems(1) have c: "case c of Add_room nm capacity \<Rightarrow> 0 \<le> capacity | _ \<Rightarrow> True"
    and rest: "sensible_rooms calls"
    by (simp_all add: sensible_rooms_def)
  from Cons.IH [OF rest cap_do_call [OF c Cons.prems(2)]] show ?case by simp
qed

text \<open>
  C6. After every sequence of calls on a fresh gym that adds no room of negative capacity,
  the roster of every offering is at most as long as the capacity recorded for its room
  (and empty when the room has no recorded capacity). And whenever \<^verbatim>\<open>register\<close> returns
  \<^verbatim>\<open>True\<close>, in any gym, the client was appended to a roster that was strictly shorter than
  the capacity of its room.
\<close>

theorem roster_within_capacity:
  "(sensible_rooms calls \<longrightarrow> capacity_respected (snd (run h nm calls))) \<and>
   (register g t client wn = Inr (True, g') \<longrightarrow>
      (\<exists>room i wk cl c. offering_of g t room = Some (i, wk, cl) \<and>
          map_of (room_capacities g) room = Some c \<and> int (length cl) < c \<and>
          offering_of g' t room = Some (i, wk, cl @ [client])))"
proof (intro conjI impI)
  assume "sensible_rooms calls"
  from cap_foldl [OF this, of "(h, Gym_init nm)"]
  show "capacity_respected (snd (run h nm calls))"
    by (simp add: run_def Gym_init_def capacities_nonneg_def capacity_respected_def)
next
  assume "register g t client wn = Inr (True, g')"
  from register_TrueD [OF this] show
    "\<exists>room i wk cl c. offering_of g t room = Some (i, wk, cl) \<and>
          map_of (room_capacities g) room = Some c \<and> int (length cl) < c \<and>
          offering_of g' t room = Some (i, wk, cl @ [client])"
    by (fastforce simp: offering_of_def slot_at_def update_conv')
qed

theorem roster_within_capacity_witness:
  "sensible_rooms ex_calls \<and>
   capacity_respected (snd (run ex_heap ''Athletic Centre'' ex_calls)) \<and>
   schedule (snd (run ex_heap ''Athletic Centre'' ex_calls)) =
     [(12, [(''lower gym'', (101, boot_camp, [''Philip'']))])] \<and>
   map_of (room_capacities (snd (run ex_heap ''Athletic Centre'' ex_calls))) ''lower gym'' = Some 1 \<and>
   register ex_conflict 12 ''Philip'' ''Boot Camp'' =
     Inr (True, ex_conflict\<lparr>schedule := [(12, [(''lower gym'', (101, boot_camp, [''Philip'']))])]\<rparr>) \<and>
   (\<exists>room i wk cl c. offering_of ex_conflict 12 room = Some (i, wk, cl) \<and>
       map_of (room_capacities ex_conflict) room = Some c \<and> int (length cl) < c \<and>
       offering_of (ex_conflict\<lparr>schedule := [(12, [(''lower gym'', (101, boot_camp, [''Philip'']))])]\<rparr>)
         12 room = Some (i, wk, cl @ [''Philip'']))"
proof -
  have sens: "sensible_rooms ex_calls"
    by (simp add: sensible_rooms_def ex_calls_def)
  have reg: "register ex_conflict 12 ''Philip'' ''Boot Camp'' =
     Inr (True, ex_conflict\<lparr>schedule := [(12, [(''lower gym'', (101, boot_camp, [''Philip'']))])]\<rparr>)"
    by code_simp
  show ?thesis
    using roster_within_capacity [where calls = ex_calls and h = ex_heap
            and nm = "''Athletic Centre''" and g = ex_conflict and t = 12
            and client = "''Philip''" and wn = "''Boot Camp''"
            and g' = "ex_conflict\<lparr>schedule := [(12, [(''lower gym'', (101, boot_camp, [''Philip'']))])]\<rparr>"]
    by (simp add: sens reg run_ex_calls ex_after_calls_def)
qed

section \<open>Hours worked and payroll\<close>

lemma dict_incr_Some: "map_of d k = Some n \<Longrightarrow> dict_incr k d = Inr (AList.update k (n + 1) d)"
  by (simp add: dict_incr_def)

lemma update_keys_same: "k \<in> set (map fst d) \<Longrightarrow> map fst (AList.update k v d) = map fst d"
  by (simp add: update_keys)

lemma key_has_value: "k \<in> set (map fst d) \<Longrightarrow> \<exists>n. map_of d k = Some n"
  by (cases "map_of d k") (auto simp: map_of_eq_None_iff)

lemma pay_instr_loop_spec:
  assumes "distinct refs" and "set refs \<subseteq> set (map fst d)"
  shows "\<exists>d'. pay_instr_loop tup refs d = Inr d' \<and> map fst d' = map fst d \<and>
           (\<forall>r. map_of d' r = (if r = fst tup \<and> r \<in> set refs
                                then map_option (\<lambda>n. n + 1) (map_of d r) else map_of d r))"
  using assms
proof (induction refs arbitrary: d)
  case Nil
  then show ?case by simp
next
  case (Cons instr rest)
  show ?case
  proof (cases "instr = fst tup")
    case True
    from Cons.prems obtain n where n: "map_of d instr = Some n"
      using key_has_value [of instr d] by auto
    let ?d1 = "AList.update instr (n + 1) d"
    from Cons.prems have keys: "map fst ?d1 = map fst d"
      by (simp add: update_keys_same)
    with Cons.prems have "distinct rest" "set rest \<subseteq> set (map fst ?d1)" by auto
    from Cons.IH [OF this] obtain d' where
      d': "pay_instr_loop tup rest ?d1 = Inr d'" "map fst d' = map fst ?d1"
        "\<forall>r. map_of d' r = (if r = fst tup \<and> r \<in> set rest
                              then map_option (\<lambda>n. n + 1) (map_of ?d1 r) else map_of ?d1 r)"
      by blast
    from True Cons.prems have notin: "fst tup \<notin> set rest" by auto
    have "pay_instr_loop tup (instr # rest) d = Inr d'"
      using True n d'(1) by (simp add: instructor_in_def dict_incr_Some)
    moreover have "map fst d' = map fst d" using d'(2) keys by simp
    moreover have "\<forall>r. map_of d' r = (if r = fst tup \<and> r \<in> set (instr # rest)
                              then map_option (\<lambda>n. n + 1) (map_of d r) else map_of d r)"
      using d'(3) notin True n by (auto simp: update_conv')
    ultimately show ?thesis by blast
  next
    case False
    from Cons.prems have "distinct rest" "set rest \<subseteq> set (map fst d)" by auto
    from Cons.IH [OF this] obtain d' where
      d': "pay_instr_loop tup rest d = Inr d'" "map fst d' = map fst d"
        "\<forall>r. map_of d' r = (if r = fst tup \<and> r \<in> set rest
                              then map_option (\<lambda>n. n + 1) (map_of d r) else map_of d r)"
      by blast
    have "pay_instr_loop tup (instr # rest) d = Inr d'"
      using False d'(1) by (simp add: instructor_in_def)
    moreover have "\<forall>r. map_of d' r = (if r = fst tup \<and> r \<in> set (instr # rest)
                              then map_option (\<lambda>n. n + 1) (map_of d r) else map_of d r)"
      using d'(3) False by auto
    ultimately show ?thesis using d'(2) by blast
  qed
qed

lemma map_of_no_key: "k \<notin> set (map fst d) \<Longrightarrow> map_of d k = None"
  by (simp add: map_of_eq_None_iff)

lemma pay_room_loop_spec:
  assumes "distinct (map fst d)"
  shows "\<exists>d'. pay_room_loop slot d = Inr d' \<and> map fst d' = map fst d \<and>
           (\<forall>r. map_of d' r = map_option (\<lambda>n. n + int (count_list (teachers slot) r)) (map_of d r))"
  using assms
proof (induction slot arbitrary: d)
  case Nil
  then show ?case by (simp add: teachers_def option.map_ident)
next
  case (Cons a slot)
  obtain room tup where a: "a = (room, tup)" by (cases a)
  from pay_instr_loop_spec [where refs = "map fst d" and d = d and tup = tup] Cons.prems
  obtain d1 where
    d1: "pay_instr_loop tup (map fst d) d = Inr d1" "map fst d1 = map fst d"
      "\<forall>r. map_of d1 r = (if r = fst tup \<and> r \<in> set (map fst d)
                            then map_option (\<lambda>n. n + 1) (map_of d r) else map_of d r)"
    by auto
  from d1(2) Cons.prems have "distinct (map fst d1)" by simp
  from Cons.IH [OF this] obtain d' where
    d': "pay_room_loop slot d1 = Inr d'" "map fst d' = map fst d1"
      "\<forall>r. map_of d' r = map_option (\<lambda>n. n + int (count_list (teachers slot) r)) (map_of d1 r)"
    by blast
  have "pay_room_loop (a # slot) d = Inr d'"
    using a d1(1) d'(1) by simp
  moreover have "map_of d' r =
      map_option (\<lambda>n. n + int (count_list (teachers (a # slot)) r)) (map_of d r)" for r
  proof (cases "r \<in> set (map fst d)")
    case True
    then obtain n where "map_of d r = Some n" using key_has_value by force
    with d1(3) d'(3) True a show ?thesis by (auto simp: teachers_def)
  next
    case False
    then have "map_of d r = None" by (rule map_of_no_key)
    with d1(3) d'(3) False show ?thesis by simp
  qed
  ultimately show ?case using d'(2) d1(2) by auto
qed

lemma pay_time_loop_spec:
  assumes "distinct (map fst d)"
  shows "\<exists>d'. pay_time_loop time1 time2 sched d = Inr d' \<and> map fst d' = map fst d \<and>
           (\<forall>r. map_of d' r =
                  map_option (\<lambda>n. n + int (classes_taught sched time1 time2 r)) (map_of d r))"
  using assms
proof (induction sched arbitrary: d)
  case Nil
  then show ?case by (simp add: classes_taught_def option.map_ident)
next
  case (Cons a sched)
  obtain t slot where a: "a = (t, slot)" by (cases a)
  show ?case
  proof (cases "time1 \<le> t \<and> t \<le> time2")
    case True
    from pay_room_loop_spec [OF Cons.prems, of slot] obtain d1 where
      d1: "pay_room_loop slot d = Inr d1" "map fst d1 = map fst d"
        "\<forall>r. map_of d1 r = map_option (\<lambda>n. n + int (count_list (teachers slot) r)) (map_of d r)"
      by blast
    from d1(2) Cons.prems have "distinct (map fst d1)" by simp
    from Cons.IH [OF this] obtain d' where
      d': "pay_time_loop time1 time2 sched d1 = Inr d'" "map fst d' = map fst d1"
        "\<forall>r. map_of d' r =
               map_option (\<lambda>n. n + int (classes_taught sched time1 time2 r)) (map_of d1 r)"
      by blast
    have "pay_time_loop time1 time2 (a # sched) d = Inr d'"
      using a True d1(1) d'(1) by simp
    moreover have "\<forall>r. map_of d' r =
        map_option (\<lambda>n. n + int (classes_taught (a # sched) time1 time2 r)) (map_of d r)"
      using d1(3) d'(3) a True
      by (simp add: classes_taught_def option.map_comp comp_def add.assoc)
    ultimately show ?thesis using d'(2) d1(2) by auto
  next
    case False
    from Cons.IH [OF Cons.prems] obtain d' where
      d': "pay_time_loop time1 time2 sched d = Inr d'" "map fst d' = map fst d"
        "\<forall>r. map_of d' r =
               map_option (\<lambda>n. n + int (classes_taught sched time1 time2 r)) (map_of d r)"
      by blast
    have "pay_time_loop time1 time2 (a # sched) d = Inr d'"
      using a False d'(1) by auto
    moreover have "\<forall>r. map_of d' r =
        map_option (\<lambda>n. n + int (classes_taught (a # sched) time1 time2 r)) (map_of d r)"
      using d'(3) a False by (auto simp: classes_taught_def)
    ultimately show ?thesis using d'(2) by auto
  qed
qed


lemma ident_inj:
  "distinct (map (\<lambda>r. instr_ident (h r)) refs) \<Longrightarrow> r \<in> set refs \<Longrightarrow> r' \<in> set refs \<Longrightarrow>
   instr_ident (h r) = instr_ident (h r') \<Longrightarrow> r = r'"
  by (auto simp: distinct_map dest: inj_onD)

lemma hours_instr_loop_spec:
  assumes "distinct (map (\<lambda>r. instr_ident (h r)) refs)"
      and "\<forall>r \<in> set refs. instr_ident (h r) \<in> set (map fst d)"
  shows "\<exists>d'. hours_instr_loop h tup refs d = Inr d' \<and> map fst d' = map fst d \<and>
           (\<forall>k. map_of d' k = (if fst tup \<in> set refs \<and> k = instr_ident (h (fst tup))
                                then map_option (\<lambda>n. n + 1) (map_of d k) else map_of d k))"
  using assms
proof (induction refs arbitrary: d)
  case Nil
  then show ?case by simp
next
  case (Cons instr rest)
  show ?case
  proof (cases "instr = fst tup")
    case True
    from Cons.prems obtain n where n: "map_of d (instr_ident (h instr)) = Some n"
      using key_has_value [of "instr_ident (h instr)" d] by auto
    let ?d1 = "AList.update (instr_ident (h instr)) (n + 1) d"
    from Cons.prems have keys: "map fst ?d1 = map fst d"
      by (simp add: update_keys_same)
    with Cons.prems have "distinct (map (\<lambda>r. instr_ident (h r)) rest)"
      "\<forall>r \<in> set rest. instr_ident (h r) \<in> set (map fst ?d1)" by auto
    from Cons.IH [OF this] obtain d' where
      d': "hours_instr_loop h tup rest ?d1 = Inr d'" "map fst d' = map fst ?d1"
        "\<forall>k. map_of d' k = (if fst tup \<in> set rest \<and> k = instr_ident (h (fst tup))
                              then map_option (\<lambda>n. n + 1) (map_of ?d1 k) else map_of ?d1 k)"
      by blast
    from True Cons.prems(1) have notin: "fst tup \<notin> set rest" by auto
    have "hours_instr_loop h tup (instr # rest) d = Inr d'"
      using True n d'(1) by (simp add: instructor_in_def dict_incr_Some)
    moreover have "map fst d' = map fst d" using d'(2) keys by simp
    moreover have "\<forall>k. map_of d' k = (if fst tup \<in> set (instr # rest) \<and> k = instr_ident (h (fst tup))
                              then map_option (\<lambda>n. n + 1) (map_of d k) else map_of d k)"
      using d'(3) notin True n by (auto simp: update_conv')
    ultimately show ?thesis by blast
  next
    case False
    from Cons.prems have "distinct (map (\<lambda>r. instr_ident (h r)) rest)"
      "\<forall>r \<in> set rest. instr_ident (h r) \<in> set (map fst d)" by auto
    from Cons.IH [OF this] obtain d' where
      d': "hours_instr_loop h tup rest d = Inr d'" "map fst d' = map fst d"
        "\<forall>k. map_of d' k = (if fst tup \<in> set rest \<and> k = instr_ident (h (fst tup))
                              then map_option (\<lambda>n. n + 1) (map_of d k) else map_of d k)"
      by blast
    have "hours_instr_loop h tup (instr # rest) d = Inr d'"
      using False d'(1) by (simp add: instructor_in_def)
    moreover have "\<forall>k. map_of d' k = (if fst tup \<in> set (instr # rest) \<and> k = instr_ident (h (fst tup))
                              then map_option (\<lambda>n. n + 1) (map_of d k) else map_of d k)"
      using d'(3) False by auto
    ultimately show ?thesis using d'(2) by blast
  qed
qed

lemma hours_room_loop_spec:
  assumes "distinct (map (\<lambda>r. instr_ident (h r)) refs)"
      and "\<forall>r \<in> set refs. instr_ident (h r) \<in> set (map fst d)"
  shows "\<exists>d'. hours_room_loop h refs slot d = Inr d' \<and> map fst d' = map fst d \<and>
           (\<forall>r \<in> set refs. map_of d' (instr_ident (h r)) =
               map_option (\<lambda>n. n + int (count_list (teachers slot) r))
                          (map_of d (instr_ident (h r))))"
  using assms
proof (induction slot arbitrary: d)
  case Nil
  then show ?case by (simp add: teachers_def option.map_ident)
next
  case (Cons a slot)
  obtain room tup where a: "a = (room, tup)" by (cases a)
  from hours_instr_loop_spec [OF Cons.prems, of tup] obtain d1 where
    d1: "hours_instr_loop h tup refs d = Inr d1" "map fst d1 = map fst d"
      "\<forall>k. map_of d1 k = (if fst tup \<in> set refs \<and> k = instr_ident (h (fst tup))
                            then map_option (\<lambda>n. n + 1) (map_of d k) else map_of d k)"
    by blast
  from d1(2) Cons.prems have "\<forall>r \<in> set refs. instr_ident (h r) \<in> set (map fst d1)" by simp
  from Cons.IH [OF Cons.prems(1) this] obtain d' where
    d': "hours_room_loop h refs slot d1 = Inr d'" "map fst d' = map fst d1"
      "\<forall>r \<in> set refs. map_of d' (instr_ident (h r)) =
          map_option (\<lambda>n. n + int (count_list (teachers slot) r)) (map_of d1 (instr_ident (h r)))"
    by blast
  have "hours_room_loop h refs (a # slot) d = Inr d'"
    using a d1(1) d'(1) by simp
  moreover have "map_of d' (instr_ident (h r)) =
      map_option (\<lambda>n. n + int (count_list (teachers (a # slot)) r)) (map_of d (instr_ident (h r)))"
    if r: "r \<in> set refs" for r
  proof -
    from r Cons.prems(2) obtain n where n: "map_of d (instr_ident (h r)) = Some n"
      using key_has_value [of "instr_ident (h r)" d] by auto
    have same: "fst tup \<in> set refs \<and> instr_ident (h r) = instr_ident (h (fst tup)) \<longleftrightarrow> fst tup = r"
      using r ident_inj [OF Cons.prems(1)] by auto
    from d1(3) same have "map_of d1 (instr_ident (h r)) =
        (if fst tup = r then Some (n + 1) else Some n)"
      by (simp add: n)
    with d'(3) r a show ?thesis by (auto simp: teachers_def n)
  qed
  ultimately show ?case using d'(2) d1(2) by auto
qed

lemma hours_date_loop_spec:
  assumes "distinct (map (\<lambda>r. instr_ident (h r)) refs)"
      and "\<forall>r \<in> set refs. instr_ident (h r) \<in> set (map fst d)"
  shows "\<exists>d'. hours_date_loop h refs time1 time2 sched d = Inr d' \<and> map fst d' = map fst d \<and>
           (\<forall>r \<in> set refs. map_of d' (instr_ident (h r)) =
               map_option (\<lambda>n. n + int (classes_taught sched time1 time2 r))
                          (map_of d (instr_ident (h r))))"
  using assms
proof (induction sched arbitrary: d)
  case Nil
  then show ?case by (simp add: classes_taught_def option.map_ident)
next
  case (Cons a sched)
  obtain t slot where a: "a = (t, slot)" by (cases a)
  show ?case
  proof (cases "time1 \<le> t \<and> t \<le> time2")
    case True
    from hours_room_loop_spec [OF Cons.prems, of slot] obtain d1 where
      d1: "hours_room_loop h refs slot d = Inr d1" "map fst d1 = map fst d"
        "\<forall>r \<in> set refs. map_of d1 (instr_ident (h r)) =
            map_option (\<lambda>n. n + int (count_list (teachers slot) r)) (map_of d (instr_ident (h r)))"
      by blast
    from d1(2) Cons.prems have "\<forall>r \<in> set refs. instr_ident (h r) \<in> set (map fst d1)" by simp
    from Cons.IH [OF Cons.prems(1) this] obtain d' where
      d': "hours_date_loop h refs time1 time2 sched d1 = Inr d'" "map fst d' = map fst d1"
        "\<forall>r \<in> set refs. map_of d' (instr_ident (h r)) =
            map_option (\<lambda>n. n + int (classes_taught sched time1 time2 r))
                       (map_of d1 (instr_ident (h r)))"
      by blast
    have "hours_date_loop h refs time1 time2 (a # sched) d = Inr d'"
      using a True d1(1) d'(1) by simp
    moreover have "\<forall>r \<in> set refs. map_of d' (instr_ident (h r)) =
        map_option (\<lambda>n. n + int (classes_taught (a # sched) time1 time2 r))
                   (map_of d (instr_ident (h r)))"
      using d1(3) d'(3) a True
      by (simp add: classes_taught_def option.map_comp comp_def add.assoc)
    ultimately show ?thesis using d'(2) d1(2) by auto
  next
    case False
    from Cons.IH [OF Cons.prems] obtain d' where
      d': "hours_date_loop h refs time1 time2 sched d = Inr d'" "map fst d' = map fst d"
        "\<forall>r \<in> set refs. map_of d' (instr_ident (h r)) =
            map_option (\<lambda>n. n + int (classes_taught sched time1 time2 r))
                       (map_of d (instr_ident (h r)))"
      by blast
    have "hours_date_loop h refs time1 time2 (a # sched) d = Inr d'"
      using a False d'(1) by auto
    moreover have "\<forall>r \<in> set refs. map_of d' (instr_ident (h r)) =
        map_option (\<lambda>n. n + int (classes_taught (a # sched) time1 time2 r))
                   (map_of d (instr_ident (h r)))"
      using d'(3) a False by (auto simp: classes_taught_def)
    ultimately show ?thesis using d'(2) by auto
  qed
qed

lemma count_list_distinct: "distinct xs \<Longrightarrow> count_list xs x = (if x \<in> set xs then 1 else 0)"
  by (induction xs) auto

lemma classes_taught_hours:
  assumes "one_class_per_instructor g"
  shows "int (classes_taught (schedule g) time1 time2 r) = hours_taught g time1 time2 r"
proof -
  have "\<forall>(t, slot) \<in> set sched. distinct (teachers slot) \<Longrightarrow>
        classes_taught sched time1 time2 r =
          length (filter (\<lambda>(t, slot). time1 \<le> t \<and> t \<le> time2 \<and> r \<in> set (teachers slot)) sched)"
    for sched
    by (induction sched) (auto simp: classes_taught_def count_list_distinct split: if_splits)
  with assms show ?thesis
    by (simp add: one_class_per_instructor_def hours_taught_def)
qed

lemma fold_update_fresh:
  "distinct (map f xs) \<Longrightarrow> set (map f xs) \<inter> set (map fst d) = {} \<Longrightarrow>
   fold (\<lambda>x d. AList.update (f x) (0::int) d) xs d = d @ map (\<lambda>x. (f x, 0)) xs"
proof (induction xs arbitrary: d)
  case Nil
  then show ?case by simp
next
  case (Cons x xs)
  from Cons.prems have fresh: "f x \<notin> fst ` set d" by auto
  then have up: "AList.update (f x) 0 d = d @ [(f x, 0)]" by (rule update_append_new)
  from Cons.prems have "distinct (map f xs)"
    "set (map f xs) \<inter> set (map fst (d @ [(f x, 0)])) = {}" by auto
  from Cons.IH [OF this] up show ?case by simp
qed


lemma registry_refs:
  assumes "registry_ok h g"
  shows "map (\<lambda>r. instr_ident (h r)) (map snd (instructors g)) = map fst (instructors g)"
    and "distinct (map snd (instructors g))"
proof -
  from assms show eq: "map (\<lambda>r. instr_ident (h r)) (map snd (instructors g)) = map fst (instructors g)"
    by (auto simp: registry_ok_def)
  from assms have "distinct (map (\<lambda>r. instr_ident (h r)) (map snd (instructors g)))"
    unfolding eq by (simp add: registry_ok_def)
  then show "distinct (map snd (instructors g))"
    using distinct_map [of "\<lambda>r. instr_ident (h r)" "map snd (instructors g)"] by blast
qed

lemma zero_dict_lookup: "x \<in> set xs \<Longrightarrow> distinct (map f xs) \<Longrightarrow>
   map_of (map (\<lambda>x. (f x, 0::int)) xs) (f x) = Some 0"
  by (induction xs) auto

lemma instructor_hours_spec:
  assumes "registry_ok h g" and "one_class_per_instructor g"
  shows "\<exists>hour_dict. instructor_hours h g time1 time2 = Inr hour_dict \<and>
           map fst hour_dict = map fst (instructors g) \<and>
           (\<forall>(instr_id, r) \<in> set (instructors g).
               map_of hour_dict instr_id = Some (hours_taught g time1 time2 r))"
proof -
  let ?xs = "instructors g"
  let ?d0 = "map (\<lambda>x. (fst x, 0::int)) ?xs"
  from assms(1) have dk: "distinct (map fst ?xs)" by (simp add: registry_ok_def)
  have init: "fold (\<lambda>(instr_id, instr) d. AList.update instr_id 0 d) ?xs [] = ?d0"
    using fold_update_fresh [of fst ?xs "[]"] dk by (simp add: case_prod_unfold)
  have idents: "distinct (map (\<lambda>r. instr_ident (h r)) (map snd ?xs))"
    by (simp only: registry_refs(1) [OF assms(1)] dk)
  have keys: "\<forall>r \<in> set (map snd ?xs). instr_ident (h r) \<in> set (map fst ?d0)"
    using assms(1) by (auto simp: registry_ok_def comp_def) force
  from hours_date_loop_spec [OF idents keys, of time1 time2 "schedule g"] obtain hd where
    hd: "hours_date_loop h (map snd ?xs) time1 time2 (schedule g) ?d0 = Inr hd"
      "map fst hd = map fst ?d0"
      "\<forall>r \<in> set (map snd ?xs). map_of hd (instr_ident (h r)) =
          map_option (\<lambda>n. n + int (classes_taught (schedule g) time1 time2 r))
                     (map_of ?d0 (instr_ident (h r)))"
    by blast
  have "instructor_hours h g time1 time2 = Inr hd"
    using hd(1) init by (simp add: instructor_hours_def)
  moreover have "map fst hd = map fst ?xs"
    using hd(2) by (simp add: comp_def)
  moreover have "map_of hd k = Some (hours_taught g time1 time2 r)" if "(k, r) \<in> set ?xs" for k r
  proof -
    from that assms(1) have id: "instr_ident (h r) = k" by (auto simp: registry_ok_def)
    from that have "r \<in> set (map snd ?xs)" by force
    with hd(3) id have "map_of hd k =
        map_option (\<lambda>n. n + int (classes_taught (schedule g) time1 time2 r)) (map_of ?d0 k)"
      by auto
    moreover from zero_dict_lookup [OF that, of fst] dk have "map_of ?d0 k = Some 0" by simp
    ultimately show ?thesis
      by (simp add: classes_taught_hours [OF assms(2)])
  qed
  ultimately show ?thesis by blast
qed

lemma alist_by_keys:
  "distinct (map fst d) \<Longrightarrow> d = map (\<lambda>k. (k, the (map_of d k))) (map fst d)"
proof (induction d)
  case Nil
  then show ?case by simp
next
  case (Cons a d)
  then have "map (\<lambda>k. (k, the (map_of (a # d) k))) (map fst d) =
             map (\<lambda>k. (k, the (map_of d k))) (map fst d)"
    by (intro map_cong) (auto simp: rev_image_eqI)
  with Cons show ?case by (cases a) simp
qed

lemma pay_match_loop_Inr: "pay_match_loop lst (Inr x) = Inr x"
  by (induction lst) auto

lemma pay_match_loop_find:
  "pay_match_loop lst (Inl i) =
     (case find (\<lambda>item. fst item = i) lst of None \<Rightarrow> Inl i | Some item \<Rightarrow> Inr item)"
  by (induction lst) (auto simp: pay_match_loop_Inr)

lemma find_distinct_key:
  "distinct (map fst xs) \<Longrightarrow> y \<in> set xs \<Longrightarrow> find (\<lambda>x. fst x = fst y) xs = Some y"
  by (induction xs) (auto simp: rev_image_eqI)

lemma map_insort_key: "map f (insort_key f x xs) = insort (f x) (map f xs)"
  by (induction xs) auto

lemma map_sort_key: "map f (sort_key f xs) = sort (map f xs)"
  by (induction xs) (auto simp: map_insort_key)

lemma insort_key_map:
  "(\<And>y. f (g y) = f' y) \<Longrightarrow> insort_key f (g x) (map g xs) = map g (insort_key f' x xs)"
  by (induction xs) auto

lemma sort_key_map:
  "(\<And>y. f (g y) = f' y) \<Longrightarrow> sort_key f (map g xs) = map g (sort_key f' xs)"
  by (induction xs) (auto simp: insort_key_map)

lemma pay_sorted_exact:
  fixes lst1 :: "'f pay_row list"
  assumes "distinct (map fst lst1)"
  shows "map (\<lambda>i. pay_match_loop lst1 (Inl i)) (sort (map fst lst1)) = map Inr (sort_key fst lst1)"
proof -
  have "map (\<lambda>i. pay_match_loop lst1 (Inl i)) (map fst (sort_key fst lst1)) =
        map Inr (sort_key fst lst1)"
    unfolding map_map
  proof (rule map_cong [OF refl])
    fix y assume "y \<in> set (sort_key fst lst1)"
    then have "y \<in> set lst1" by simp
    from find_distinct_key [OF assms this]
    show "((\<lambda>i. pay_match_loop lst1 (Inl i)) \<circ> fst) y = Inr y"
      by (simp add: pay_match_loop_find)
  qed
  then show ?thesis by (simp only: map_sort_key)
qed

text \<open>
  C7. In a gym whose registry holds every instructor under the instructor's own id and
  in which no instructor teaches two offerings of one slot, for all times \<open>time1\<close> and
  \<open>time2\<close>: \<^verbatim>\<open>instructor_hours\<close> returns a dictionary with exactly the ids of the registry,
  and the value of an id is the number of slots \<open>t\<close> of the schedule with
  \<open>time1 \<le> t \<le> time2\<close> in which that instructor teaches (0 when there is none);
  \<^verbatim>\<open>payroll\<close> returns one tuple (id, name, hours, hours * (base_rate + 1.50 * number of
  certificates held)) for every instructor of the registry, in ascending order of the ids.
  The wages are the value of that expression in the float arithmetic of the call, whatever
  its operations are; in binary64 arithmetic they are rounded after each operation.
\<close>

theorem hours_and_payroll:
  assumes "registry_ok h g" and "one_class_per_instructor g"
  shows "instructor_hours h g time1 time2 =
           Inr (map (\<lambda>entry. (fst entry, hours_taught g time1 time2 (snd entry))) (instructors g)) \<and>
         payroll fl h g time1 time2 base_rate =
           Inr (map (\<lambda>entry. Inr (pay_row_of fl h g time1 time2 base_rate entry))
                    (sort_key fst (instructors g)))"
proof
  from instructor_hours_spec [OF assms, of time1 time2] obtain hd where
    hd: "instructor_hours h g time1 time2 = Inr hd" "map fst hd = map fst (instructors g)"
      "\<forall>(instr_id, r) \<in> set (instructors g). map_of hd instr_id = Some (hours_taught g time1 time2 r)"
    by blast
  from assms(1) have "distinct (map fst hd)" unfolding hd(2) by (simp add: registry_ok_def)
  from alist_by_keys [OF this] have "hd = map (\<lambda>k. (k, the (map_of hd k))) (map fst (instructors g))"
    unfolding hd(2) .
  also have "\<dots> = map (\<lambda>entry. (fst entry, hours_taught g time1 time2 (snd entry))) (instructors g)"
    unfolding map_map using hd(3) by (intro map_cong [OF refl]) auto
  finally show "instructor_hours h g time1 time2 =
           Inr (map (\<lambda>entry. (fst entry, hours_taught g time1 time2 (snd entry))) (instructors g))"
    using hd(1) by simp
next
  let ?xs = "instructors g"
  let ?d0 = "map (\<lambda>x. (snd x, 0::int)) ?xs"
  from assms(1) have dk: "distinct (map fst ?xs)" by (simp add: registry_ok_def)
  note dr = registry_refs(2) [OF assms(1)]
  have init: "fold (\<lambda>(instr_id, instr) d. AList.update instr 0 d) ?xs [] = ?d0"
    using fold_update_fresh [of snd ?xs "[]"] dr by (simp add: case_prod_unfold)
  have keys0: "map fst ?d0 = map snd ?xs" by (simp add: comp_def)
  have "distinct (map fst ?d0)" unfolding keys0 by (rule dr)
  from pay_time_loop_spec [OF this, of time1 time2 "schedule g"] obtain d' where
    d': "pay_time_loop time1 time2 (schedule g) ?d0 = Inr d'" "map fst d' = map fst ?d0"
      "\<forall>r. map_of d' r =
          map_option (\<lambda>n. n + int (classes_taught (schedule g) time1 time2 r)) (map_of ?d0 r)"
    by blast
  have val: "the (map_of d' (snd x)) = hours_taught g time1 time2 (snd x)" if "x \<in> set ?xs" for x
    using d'(3) zero_dict_lookup [OF that dr] by (simp add: classes_taught_hours [OF assms(2)])
  have kd: "map fst d' = map snd ?xs" using d'(2) keys0 by (rule trans)
  have "distinct (map fst d')" unfolding kd by (rule dr)
  from alist_by_keys [OF this] have "d' = map (\<lambda>k. (k, the (map_of d' k))) (map snd ?xs)"
    unfolding kd .
  also have "\<dots> = map (\<lambda>x. (snd x, hours_taught g time1 time2 (snd x))) ?xs"
    unfolding map_map by (rule map_cong [OF refl]) (simp add: val)
  finally have d'_eq: "d' = map (\<lambda>x. (snd x, hours_taught g time1 time2 (snd x))) ?xs" .
  let ?lst1 = "map (pay_row_of fl h g time1 time2 base_rate) ?xs"
  have lst1: "map (\<lambda>(instr, hours).
                  (let counter = length (certificates (h instr));
                       bonus = fl_mul fl (BONUS_RATE fl) (fl_of_int fl (int counter));
                       total = fl_mul fl (fl_of_int fl hours) (fl_add fl base_rate bonus)
                   in (instr_ident (h instr), instr_name (h instr), hours, total))) d' = ?lst1"
    unfolding d'_eq map_map
  proof (rule map_cong [OF refl])
    fix x assume "x \<in> set ?xs"
    with assms(1) have "instr_ident (h (snd x)) = fst x"
      by (auto simp: registry_ok_def)
    then show "((\<lambda>(instr, hours).
                  (let counter = length (certificates (h instr));
                       bonus = fl_mul fl (BONUS_RATE fl) (fl_of_int fl (int counter));
                       total = fl_mul fl (fl_of_int fl hours) (fl_add fl base_rate bonus)
                   in (instr_ident (h instr), instr_name (h instr), hours, total))) \<circ>
               (\<lambda>x. (snd x, hours_taught g time1 time2 (snd x)))) x =
              pay_row_of fl h g time1 time2 base_rate x"
      by (simp add: pay_row_of_def wages_def BONUS_RATE_def Let_def)
  qed
  have ids: "map fst ?lst1 = map fst ?xs"
    by (simp add: comp_def pay_row_of_def)
  have "distinct (map fst ?lst1)" unfolding ids by (rule dk)
  from pay_sorted_exact [OF this]
  have "map (\<lambda>i. pay_match_loop ?lst1 (Inl i)) (sort (map fst ?lst1)) =
        map Inr (sort_key fst ?lst1)" .
  also have "sort_key fst ?lst1 = map (pay_row_of fl h g time1 time2 base_rate) (sort_key fst ?xs)"
    by (rule sort_key_map) (simp add: pay_row_of_def)
  finally have "map (\<lambda>i. pay_match_loop ?lst1 (Inl i)) (sort (map fst ?lst1)) =
        map (\<lambda>entry. Inr (pay_row_of fl h g time1 time2 base_rate entry)) (sort_key fst ?xs)"
    by (simp add: comp_def)
  then show "payroll fl h g time1 time2 base_rate =
           Inr (map (\<lambda>entry. Inr (pay_row_of fl h g time1 time2 base_rate entry))
                    (sort_key fst (instructors g)))"
    using init d'(1) lst1 by (simp add: payroll_def Let_def)
qed

text \<open>
  The witness is the docstring of \<^verbatim>\<open>payroll\<close> and the scenario of the specification, in
  binary64 arithmetic: with one certificate and one hour at the base rate 25.0, Diane
  earns 26.5; David, without an hour, is listed with 0. With three hours at the base rate
  0.1 and no certificate the wages are 0.30000000000000004, the float
  \<open>5404319552844596 / 2 ^ 54\<close>, and not three tenths.
\<close>

theorem hours_and_payroll_witness:
  "registry_ok ex_heap ex_payroll \<and> one_class_per_instructor ex_payroll \<and>
   instructor_hours ex_heap ex_payroll 12 36 = Inr [(3, 0), (1, 1)] \<and>
   payroll double_ops ex_heap ex_payroll 12 36 (Finite 25) =
     Inr [Inr (1, ''Diane'', 1, Finite (53 / 2)), Inr (3, ''David'', 0, Finite 0)] \<and>
   registry_ok ex_heap ex_three_hours \<and> one_class_per_instructor ex_three_hours \<and>
   instructor_hours ex_heap ex_three_hours 12 14 = Inr [(2, 3)] \<and>
   payroll double_ops ex_heap ex_three_hours 12 14 (round_float (1 / 10)) =
     Inr [Inr (2, ''Diane'', 3, Finite (5404319552844596 / 2 ^ 54))]"
proof -
  have reg: "registry_ok ex_heap ex_payroll"
    by (simp add: registry_ok_def ex_payroll_def ex_heap_def)
  have one: "one_class_per_instructor ex_payroll"
    by (simp add: one_class_per_instructor_def ex_payroll_def teachers_def)
  have hrs: "hours_taught ex_payroll 12 36 101 = 1" "hours_taught ex_payroll 12 36 103 = 0"
    by (simp_all add: hours_taught_def ex_payroll_def teachers_def)
  have ins: "instructors ex_payroll = [(3, 103), (1, 101)]"
    by (simp add: ex_payroll_def)
  have diane: "wages double_ops (Finite 25) 1 (length (certificates (ex_heap 101))) = Finite (53 / 2)"
    by code_simp
  have david: "wages double_ops (Finite 25) 0 (length (certificates (ex_heap 103))) = Finite 0"
    by code_simp
  have hours: "map (\<lambda>entry. (fst entry, hours_taught ex_payroll 12 36 (snd entry)))
                   (instructors ex_payroll) = [(3, 0), (1, 1)]"
    by (simp add: ins hrs)
  have rows: "map (\<lambda>entry. Inr (pay_row_of double_ops ex_heap ex_payroll 12 36 (Finite 25) entry))
                  (sort_key fst (instructors ex_payroll)) =
              [Inr (1, ''Diane'', 1, Finite (53 / 2)), Inr (3, ''David'', 0, Finite 0)]"
    by (simp add: ins hrs pay_row_of_def diane david) (simp add: ex_heap_def)
  have reg3: "registry_ok ex_heap ex_three_hours"
    by (simp add: registry_ok_def ex_three_hours_def ex_heap_def)
  have one3: "one_class_per_instructor ex_three_hours"
    by (simp add: one_class_per_instructor_def ex_three_hours_def teachers_def)
  have hrs3: "hours_taught ex_three_hours 12 14 102 = 3"
    by (simp add: hours_taught_def ex_three_hours_def teachers_def)
  have ins3: "instructors ex_three_hours = [(2, 102)]"
    by (simp add: ex_three_hours_def)
  have tenth: "wages double_ops (round_float (1 / 10)) 3 (length (certificates (ex_heap 102))) =
                 Finite (5404319552844596 / 2 ^ 54)"
    by code_simp
  have hours3: "map (\<lambda>entry. (fst entry, hours_taught ex_three_hours 12 14 (snd entry)))
                    (instructors ex_three_hours) = [(2, 3)]"
    by (simp add: ins3 hrs3)
  have rows3: "map (\<lambda>entry. Inr (pay_row_of double_ops ex_heap ex_three_hours 12 14
                                     (round_float (1 / 10)) entry))
                   (sort_key fst (instructors ex_three_hours)) =
               [Inr (2, ''Diane'', 3, Finite (5404319552844596 / 2 ^ 54))]"
    by (simp add: ins3 hrs3 pay_row_of_def tenth) (simp add: ex_heap_def)
  from hours_and_payroll [OF reg one, of 12 36 double_ops "Finite 25"]
       hours_and_payroll [OF reg3 one3, of 12 14 double_ops "round_float (1 / 10)"]
       reg one reg3 one3
  show ?thesis
    unfolding hours rows hours3 rows3 by simp
qed

text \<open>Every state that a sequence of calls reaches from a fresh gym is of this kind.\<close>

lemma schedule_keeps_registry:
  "schedule_workout_class h g t room wn iid = Inr (ok, g') \<Longrightarrow> instructors g' = instructors g"
  by (cases ok) (auto dest: schedule_TrueD schedule_FalseD)

lemma register_keeps_registry:
  "register g t client wn = Inr (ok, g') \<Longrightarrow> instructors g' = instructors g"
  by (cases ok) (auto dest: register_TrueD register_FalseD)

lemma registry_ok_do_call:
  "registry_ok (fst s) (snd s) \<Longrightarrow> registry_ok (fst (do_call s c)) (snd (do_call s c))"
proof (cases s; cases c)
qed (auto simp: registry_ok_def add_instructor_def add_workout_class_def add_room_def
       add_certificate_def has_key_def update_append_new rev_image_eqI
       split: sum.splits if_splits
       dest!: schedule_keeps_registry register_keeps_registry)

lemma registry_ok_foldl:
  "registry_ok (fst s) (snd s) \<Longrightarrow>
   registry_ok (fst (foldl do_call s calls)) (snd (foldl do_call s calls))"
  by (induction calls arbitrary: s) (simp_all add: registry_ok_do_call)

lemma run_well_formed:
  "registry_ok (fst (run h nm calls)) (snd (run h nm calls)) \<and>
   one_class_per_instructor (snd (run h nm calls))"
proof
  show "registry_ok (fst (run h nm calls)) (snd (run h nm calls))"
    unfolding run_def by (rule registry_ok_foldl) (simp add: registry_ok_def Gym_init_def)
  have "no_double_booking (snd (run h nm calls))"
    unfolding run_def by (rule ndb_foldl) (simp add: no_double_booking_def Gym_init_def)
  then show "one_class_per_instructor (snd (run h nm calls))"
    by (auto simp: no_double_booking_def one_class_per_instructor_def slot_ok_def)
qed

section \<open>Listings\<close>

text \<open>
  C10. \<^verbatim>\<open>offerings_at\<close> starts with the lookup \<^verbatim>\<open>self._schedule[time_point]\<close>: for a time
  that is not a key of the schedule the call raises \<^verbatim>\<open>KeyError\<close>; it does not return the
  empty list.
\<close>

theorem offerings_at_missing_slot:
  "\<not> has_key (schedule g) time_point \<Longrightarrow>
     offerings_at h g time_point = Inl KeyError \<and> offerings_at h g time_point \<noteq> Inr []"
  by (simp add: offerings_at_def has_key_map_of)

theorem offerings_at_missing_slot_witness:
  "\<not> has_key (schedule ex_listing) 13 \<and>
   offerings_at ex_heap ex_listing 13 = Inl KeyError \<and>
   offerings_at ex_heap ex_listing 13 \<noteq> Inr []"
  using offerings_at_missing_slot [of ex_listing 13 ex_heap]
  by (simp add: ex_listing_def has_key_def)

text \<open>
  C9. The specification numbers the instructors of a shared name with a counter per name,
  and the docstring of \<^verbatim>\<open>offerings_at\<close> follows a shared name by the instructor's id. The
  code keeps one counter for the whole listing and increments it at every instructor with
  a shared name: when Diane, Diane, David, Tom and Tom (ids 1 to 5) teach in the rooms A to
  E, the two Toms are shown as "Tom (3)" and "Tom (4)", where the specification gives
  "Tom (1)" and "Tom (2)" and the docstring "Tom (4)" and "Tom (5)".
\<close>

theorem offerings_at_one_counter_for_all_names:
  "map_sum id (map Instructor_name) (offerings_at ex_heap ex_names 12) =
     Inr [''Diane (1)'', ''Diane (2)'', ''David'', ''Tom (3)'', ''Tom (4)''] \<and>
   claimed_names ex_heap ex_names [101, 102, 103, 104, 105] [] =
     [''Diane (1)'', ''Diane (2)'', ''David'', ''Tom (1)'', ''Tom (2)''] \<and>
   documented_names ex_heap ex_names [101, 102, 103, 104, 105] =
     [''Diane (1)'', ''Diane (2)'', ''David'', ''Tom (4)'', ''Tom (5)'']"
  by code_simp

text \<open>
  C3. The specification and the docstring of \<^verbatim>\<open>to_schedule_list\<close> ask for one record per
  offering. The code builds the result from the list of the times, one entry per time
  slot, and overwrites that entry by each record of the slot in turn: of the two offerings
  at 12:00 only the one in Room A is returned.
\<close>

theorem to_schedule_list_drops_offerings:
  "offerings_at ex_heap ex_listing 12 =
     Inr [\<lparr>Date = 0, Time = 12, Class = ''Boot Camp'', Room = ''Dance Studio'', Registered = 0,
           Available = 50, Instructor_name = ''Diane (1)''\<rparr>,
          \<lparr>Date = 0, Time = 12, Class = ''KickBoxing'', Room = ''Room A'', Registered = 0,
           Available = 20, Instructor_name = ''David''\<rparr>] \<and>
   to_schedule_list in_week ex_heap ex_listing None =
     Inr [Row \<lparr>Date = 0, Time = 12, Class = ''KickBoxing'', Room = ''Room A'', Registered = 0,
               Available = 20, Instructor_name = ''David''\<rparr>]"
  by code_simp

end
